theory Spec2Isabelle
  imports Complex_Main "HOL-Library.Multiset" "HOL-Library.Sublist"
begin

section \<open>Load/soak driver: order statistics\<close>

text \<open>
  Python exceptions that the modelled code can raise are values of \<open>py_error\<close>; a
  computation that may raise returns \<open>py_error + 'a\<close> with \<open>Inl\<close> for the exception.
  A Python float is modelled as the real number it denotes. Comparisons and sorting are
  exact on doubles; where the code computes with floats the model computes with reals,
  and \<open>fl\<close> below gives the rounding of a result to a double where a statement needs it.
\<close>

datatype py_error =
  IndexError | TypeError | URLError | HTTPError | JSONDecodeError | RemoteDisconnected
  | TimeoutError | ConnectionResetError | OSError

text \<open>\<^verbatim>\<open>int(x)\<close> on a float truncates toward zero.\<close>

definition py_int :: "real \<Rightarrow> int" where
  "py_int x = (if x < 0 then \<lceil>x\<rceil> else \<lfloor>x\<rfloor>)"

text \<open>\<^verbatim>\<open>xs[i]\<close>: a negative index counts from the end, an index out of range raises.\<close>

definition py_getitem :: "'a list \<Rightarrow> int \<Rightarrow> py_error + 'a" where
  "py_getitem xs i =
     (let n = int (length xs) in
      if 0 \<le> i \<and> i < n then Inr (xs ! nat i)
      else if - n \<le> i \<and> i < 0 then Inr (xs ! nat (n + i))
      else Inl IndexError)"

text \<open>\<open>percentile\<close>, with the product \<open>(len(ordered) - 1) * pct\<close> of line 26 taken exactly.\<close>

definition percentile :: "real list \<Rightarrow> real \<Rightarrow> py_error + real" where
  "percentile values pct =
     (if values = [] then Inr 0
      else let ordered = sort values;
               idx = py_int (of_int (int (length ordered) - 1) * pct)
           in py_getitem ordered idx)"

subsection \<open>The product as a double\<close>

text \<open>
  \<open>fl x\<close> is the double nearest to \<open>x\<close>, a tie going to the even significand of 53 bits, as
  IEEE 754 arithmetic rounds the exact result of an operation. The exponent is unbounded
  in the model: overflow and subnormal numbers are not represented. \<open>ilog2 n\<close> is
  \<open>\<lfloor>log\<^sub>2 n\<rfloor>\<close> for \<open>n \<ge> 1\<close>, and \<open>exponent x\<close> is \<open>\<lfloor>log\<^sub>2 x\<rfloor>\<close> for \<open>x > 0\<close>.
\<close>

function ilog2 :: "int \<Rightarrow> int" where
  "ilog2 n = (if n \<le> 1 then 0 else 1 + ilog2 (n div 2))"
  by pat_completeness auto
termination
  by (relation "measure nat") auto

declare ilog2.simps [simp del]

definition exponent :: "real \<Rightarrow> int" where
  "exponent x =
     (if 1 \<le> x then ilog2 \<lfloor>x\<rfloor>
      else - (1 + ilog2 (\<lceil>1 / x\<rceil> - 1)))"

definition ulp :: "real \<Rightarrow> real" where
  "ulp x = (let e = exponent \<bar>x\<bar> - 52 in if 0 \<le> e then 2 ^ nat e else 1 / 2 ^ nat (- e))"

definition round_half_even :: "real \<Rightarrow> int" where
  "round_half_even y =
     (let f = \<lfloor>y\<rfloor>; r = y - of_int f
      in if r < 1 / 2 then f else if r > 1 / 2 then f + 1 else if even f then f else f + 1)"

definition fl :: "real \<Rightarrow> real" where
  "fl x = (if x = 0 then 0 else of_int (round_half_even (x / ulp x)) * ulp x)"

text \<open>
  \<open>percentile\<close> as the interpreter computes it: the argument \<open>pct\<close> is a double (the one
  nearest to the number written), \<open>len(ordered) - 1\<close> is converted to a double exactly (a
  list is shorter than \<open>2\<^sup>5\<^sup>3\<close>), and their product is rounded to a double before \<^verbatim>\<open>int\<close>
  truncates it.
\<close>

definition percentile_ieee :: "real list \<Rightarrow> real \<Rightarrow> py_error + real" where
  "percentile_ieee values pct =
     (if values = [] then Inr 0
      else let ordered = sort values;
               idx = py_int (fl (of_int (int (length ordered) - 1) * fl pct))
           in py_getitem ordered idx)"

section \<open>Load/soak driver: synthetic endpoints\<close>

text \<open>
  \<^verbatim>\<open>str(n)\<close> of a Python int: decimal digits without leading zeros, with a minus sign
  for a negative number. The f-string of \<open>generate_endpoint\<close> formats each field so.
\<close>

definition digit_char :: "nat \<Rightarrow> char" where
  "digit_char d = ''0123456789'' ! d"

fun str_nat :: "nat \<Rightarrow> string" where
  "str_nat n = (if n < 10 then [digit_char n] else str_nat (n div 10) @ [digit_char (n mod 10)])"

declare str_nat.simps [simp del]

definition str_int :: "int \<Rightarrow> string" where
  "str_int i = (if i < 0 then CHR ''-'' # str_nat (nat (- i)) else str_nat (nat i))"

text \<open>Python's \<^verbatim>\<open>%\<close> and \<^verbatim>\<open>//\<close> with a positive divisor are \<open>mod\<close> and \<open>div\<close> on \<open>int\<close>.\<close>

definition generate_endpoint :: "int \<Rightarrow> string" where
  "generate_endpoint index =
     (let a = 10;
          b = (index mod 200) + 1;
          c = ((index div 200) mod 200) + 1;
          d = 1;
          port = 20000 + (index mod 20000)
      in str_int a @ ''.'' @ str_int b @ ''.'' @ str_int c @ ''.'' @ str_int d @ '':'' @ str_int port)"

text \<open>Reading a decimal string back, used to show that \<open>str_nat\<close> is injective.\<close>

definition is_digit :: "char \<Rightarrow> bool" where
  "is_digit c = (c \<in> set ''0123456789'')"

definition digit_val :: "char \<Rightarrow> nat" where
  "digit_val c = of_char c - 48"

definition nat_of_digits :: "string \<Rightarrow> nat" where
  "nat_of_digits ds = foldl (\<lambda>acc c. 10 * acc + digit_val c) 0 ds"

section \<open>Load/soak driver: HTTP calls\<close>

text \<open>
  A decoded JSON value, as \<^verbatim>\<open>json.loads\<close> returns it and \<^verbatim>\<open>json.dumps\<close> takes it; an
  object is an association list with distinct keys.
\<close>

datatype json =
    JNull
  | JBool bool
  | JInt int
  | JFloat real
  | JString string
  | JArray "json list"
  | JObject "(string \<times> json) list"

text \<open>
  What \<^verbatim>\<open>urllib.request.urlopen\<close> does with a request: it returns a response (status and
  body), raises \<^verbatim>\<open>urllib.error.HTTPError\<close> (code and body), or raises another exception
  (\<^verbatim>\<open>URLError\<close> for a refused connection or a DNS failure, \<^verbatim>\<open>TimeoutError\<close>,
  \<^verbatim>\<open>RemoteDisconnected\<close>, ...). The network is a parameter of the model:
  a \<open>transport\<close> maps the URL, payload and timeout of a POST to the outcome and to the
  milliseconds measured around the attempt. A failure while the body of a successful
  response is read is caught by the same handler and is part of \<open>Raises_other\<close>. The
  request is taken to be well formed, and the body of an \<^verbatim>\<open>HTTPError\<close> to be readable:
  what \<^verbatim>\<open>Request(...)\<close> or \<^verbatim>\<open>exc.read()\<close> could raise outside the handlers is not modelled.
\<close>

datatype urlopen_outcome =
    Response int string
  | Raises_HTTPError int string
  | Raises_other py_error

type_synonym transport = "string \<Rightarrow> json \<Rightarrow> real \<Rightarrow> urlopen_outcome \<times> real"

definition post_json :: "transport \<Rightarrow> string \<Rightarrow> json \<Rightarrow> real \<Rightarrow> int \<times> real \<times> string" where
  "post_json net url payload timeout =
     (case net url payload timeout of
        (Response status body, elapsed_ms) \<Rightarrow> (status, elapsed_ms, body)
      | (Raises_HTTPError code body, elapsed_ms) \<Rightarrow> (code, elapsed_ms, body)
      | (Raises_other e, elapsed_ms) \<Rightarrow> (0, elapsed_ms, ''''))"

text \<open>
  \<open>get_json\<close> has no handler: whatever \<^verbatim>\<open>urlopen\<close> or \<^verbatim>\<open>json.loads\<close> raises leaves the
  function. The decoder is a parameter.
\<close>

definition get_json ::
  "(string \<Rightarrow> real \<Rightarrow> urlopen_outcome) \<Rightarrow> (string \<Rightarrow> py_error + json) \<Rightarrow> string \<Rightarrow> real
    \<Rightarrow> py_error + json" where
  "get_json http_get json_loads url timeout =
     (case http_get url timeout of
        Response status body \<Rightarrow> json_loads body
      | Raises_HTTPError code body \<Rightarrow> Inl HTTPError
      | Raises_other e \<Rightarrow> Inl e)"

definition register_one :: "transport \<Rightarrow> string \<Rightarrow> string \<Rightarrow> string \<Rightarrow> real \<Rightarrow> bool \<times> real \<times> int" where
  "register_one net master_url relay_id endpoint timeout =
     (let payload = JObject
            [(''relay_id'', JString relay_id),
             (''endpoints'', JArray [JString endpoint]),
             (''region'', JString ''loadtest-us''),
             (''asn'', JInt 64512),
             (''max_sessions'', JInt 256),
             (''max_bitrate_kbps'', JInt 20000),
             (''features'', JArray [JString ''ipv4''])];
          (status, elapsed_ms, _) = post_json net (master_url @ ''/v1/relays/register'') payload timeout
      in (200 \<le> status \<and> status < 300, elapsed_ms, status))"

text \<open>The load percentage drawn by \<^verbatim>\<open>random.randint(5, 90)\<close> is the argument \<open>load\<close>.\<close>

definition heartbeat_one :: "transport \<Rightarrow> int \<Rightarrow> string \<Rightarrow> string \<Rightarrow> real \<Rightarrow> bool \<times> real \<times> int" where
  "heartbeat_one net load master_url relay_id timeout =
     (let payload = JObject
            [(''relay_id'', JString relay_id),
             (''load_pct'', JFloat (of_int load))];
          (status, elapsed_ms, _) = post_json net (master_url @ ''/v1/relays/heartbeat'') payload timeout
      in (200 \<le> status \<and> status < 300, elapsed_ms, status))"

section \<open>Load/soak driver: the run\<close>

record args =
  arg_master_url :: string
  arg_relay_count :: int
  arg_soak_seconds :: int
  arg_interval_seconds :: real
  arg_timeout_seconds :: real
  arg_workers :: int
  arg_min_success_rate :: real
  arg_max_register_p95_ms :: real
  arg_max_heartbeat_p95_ms :: real

text \<open>\<^verbatim>\<open>f"{idx:03d}"\<close> for an index of \<^verbatim>\<open>range(relay_count)\<close>: zero-padded to three digits.\<close>

definition fmt_03d :: "nat \<Rightarrow> string" where
  "fmt_03d idx = replicate (3 - length (str_nat idx)) CHR ''0'' @ str_nat idx"

definition relay_id_of :: "string \<Rightarrow> nat \<Rightarrow> string" where
  "relay_id_of token idx = ''load-'' @ token @ ''-'' @ fmt_03d idx"

text \<open>
  The worker pool runs the submitted calls; \<^verbatim>\<open>as_completed\<close> yields each future once, in
  the order the calls finish. That order is a parameter: a list of positions into the
  list of futures.
\<close>

definition as_completed :: "nat list \<Rightarrow> 'a list \<Rightarrow> 'a list" where
  "as_completed order futs = map (\<lambda>i. futs ! i) (filter (\<lambda>i. i < length futs) order)"

text \<open>The body of the loop over the completed register calls.\<close>

fun register_collect ::
  "(bool \<times> real \<times> int) list \<Rightarrow> real list \<times> int \<Rightarrow> real list \<times> int" where
  "register_collect [] acc = acc"
| "register_collect ((ok, latency_ms, _) # rest) (register_latencies, register_success) =
     register_collect rest
       (register_latencies @ [latency_ms],
        if ok then register_success + 1 else register_success)"

definition register_phase ::
  "transport \<Rightarrow> nat list \<Rightarrow> args \<Rightarrow> string list \<Rightarrow> real list \<times> int" where
  "register_phase net order args relay_ids =
     (let futs = map (\<lambda>idx. register_one net (arg_master_url args) (relay_ids ! idx)
                        (generate_endpoint (int idx)) (arg_timeout_seconds args))
                   [0 ..< length relay_ids]
      in register_collect (as_completed order futs) ([], 0))"

subsection \<open>Heartbeat soak\<close>

text \<open>
  The clock and the network during one pass of the soak loop: the three readings of
  \<^verbatim>\<open>time.monotonic()\<close> (loop condition, \<open>wave_start\<close>, end of the wave), the transport
  and completion order of the wave, and the load percentages drawn. When the loop
  condition fails only \<open>t_check\<close> is read.
\<close>

record wave_env =
  t_check :: real
  t_wave_start :: real
  t_wave_end :: real
  hb_net :: transport
  hb_order :: "nat list"
  hb_load :: "string \<Rightarrow> int"

text \<open>What the soak loop does to the outside: the calls of a wave and each \<^verbatim>\<open>time.sleep\<close>.\<close>

datatype soak_event = Wave "string list" | Sleep real

record hb_state =
  heartbeat_total :: int
  heartbeat_success :: int
  heartbeat_latencies :: "real list"
  soak_trace :: "soak_event list"

fun heartbeat_collect :: "(bool \<times> real \<times> int) list \<Rightarrow> hb_state \<Rightarrow> hb_state" where
  "heartbeat_collect [] st = st"
| "heartbeat_collect ((ok, latency_ms, _) # rest) st =
     heartbeat_collect rest
       (st\<lparr>heartbeat_total := heartbeat_total st + 1,
           heartbeat_latencies := heartbeat_latencies st @ [latency_ms],
           heartbeat_success := (if ok then heartbeat_success st + 1 else heartbeat_success st)\<rparr>)"

definition heartbeat_wave :: "wave_env \<Rightarrow> args \<Rightarrow> string list \<Rightarrow> hb_state \<Rightarrow> hb_state" where
  "heartbeat_wave w args relay_ids st =
     (let futs = map (\<lambda>relay_id. heartbeat_one (hb_net w) (hb_load w relay_id)
                        (arg_master_url args) relay_id (arg_timeout_seconds args))
                   relay_ids
      in heartbeat_collect (as_completed (hb_order w) futs)
           (st\<lparr>soak_trace := soak_trace st @ [Wave relay_ids]\<rparr>))"

text \<open>
  The \<^verbatim>\<open>while\<close> loop. Each pass consumes one \<open>wave_env\<close>; a list that ends while the loop
  condition still holds describes a run that has not left the loop, and the result is
  \<open>None\<close>.
\<close>

fun soak_loop :: "args \<Rightarrow> string list \<Rightarrow> real \<Rightarrow> wave_env list \<Rightarrow> hb_state \<Rightarrow> hb_state option" where
  "soak_loop args relay_ids start [] st = None"
| "soak_loop args relay_ids start (w # ws) st =
     (if t_check w - start < of_int (arg_soak_seconds args) then
        let wave_start = t_wave_start w;
            st1 = heartbeat_wave w args relay_ids st;
            elapsed = t_wave_end w - wave_start;
            sleep_for = arg_interval_seconds args - elapsed;
            st2 = (if sleep_for > 0 then st1\<lparr>soak_trace := soak_trace st1 @ [Sleep sleep_for]\<rparr>
                   else st1)
        in soak_loop args relay_ids start ws st2
      else Some st)"

subsection \<open>Post-soak verification\<close>

text \<open>
  \<^verbatim>\<open>for item in registered_relays\<close>: a list yields its items, a dict its keys, a string
  its characters; anything else is not iterable.
\<close>

definition py_iter :: "json \<Rightarrow> py_error + json list" where
  "py_iter j =
     (case j of
        JArray items \<Rightarrow> Inr items
      | JObject kvs \<Rightarrow> Inr (map (\<lambda>kv. JString (fst kv)) kvs)
      | JString s \<Rightarrow> Inr (map (\<lambda>c. JString [c]) s)
      | _ \<Rightarrow> Inl TypeError)"

definition hashable :: "json \<Rightarrow> bool" where
  "hashable j = (case j of JArray _ \<Rightarrow> False | JObject _ \<Rightarrow> False | _ \<Rightarrow> True)"

text \<open>
  The set comprehension: \<^verbatim>\<open>item.get("relay_id")\<close> of every dict among the items; adding
  a list or a dict to a set raises. The set is kept as a list; only membership is used.
\<close>

fun registered_ids_of :: "json list \<Rightarrow> py_error + json list" where
  "registered_ids_of [] = Inr []"
| "registered_ids_of (item # rest) =
     (case item of
        JObject kvs \<Rightarrow>
          (let v = (case map_of kvs ''relay_id'' of None \<Rightarrow> JNull | Some x \<Rightarrow> x) in
           if hashable v then
             (case registered_ids_of rest of Inl e \<Rightarrow> Inl e | Inr ids \<Rightarrow> Inr (v # ids))
           else Inl TypeError)
      | _ \<Rightarrow> registered_ids_of rest)"

subsection \<open>Summary and exit policy\<close>

record summary =
  s_relay_count :: int
  s_register_success_rate :: real
  s_register_p95_ms :: real
  s_heartbeat_total :: int
  s_heartbeat_success_rate :: real
  s_heartbeat_p95_ms :: real
  s_missing_registered_relays :: int
  s_mean_heartbeat_ms :: real

text \<open>
  \<^verbatim>\<open>round(x, ndigits)\<close>, on reals: to the nearest multiple of \<open>10\<^sup>-\<^sup>n\<close>, ties to even. Python
  rounds the double nearest to \<open>x\<close>, so at a real tie that is not a double the digits of the
  summary can differ by one unit in the last place (\<open>1 / 160\<close> is printed as \<open>0.0063\<close>, the
  double lying above \<open>0.00625\<close>). The rounded fields are only printed: the objectives are
  checked on the unrounded rates and percentiles.
\<close>

definition py_round :: "real \<Rightarrow> nat \<Rightarrow> real" where
  "py_round x ndigits =
     (let y = x * 10 ^ ndigits; f = \<lfloor>y\<rfloor>; r = y - of_int f;
          k = (if r < 1 / 2 then f else if r > 1 / 2 then f + 1 else if even f then f else f + 1)
      in of_int k / 10 ^ ndigits)"

definition mean :: "real list \<Rightarrow> real" where
  "mean xs = sum_list xs / of_nat (length xs)"

text \<open>
  The lines written by the run: the summary object on stdout, and on stderr the
  diagnostic of a violated objective with the values it reports.
\<close>

datatype printed =
    Stdout_summary summary
  | Stderr_register_rate real real
  | Stderr_heartbeat_rate real real
  | Stderr_register_p95 real real
  | Stderr_heartbeat_p95 real real
  | Stderr_missing nat string

text \<open>
  Everything outside the program that a run of \<open>main\<close> depends on: the run token
  (\<^verbatim>\<open>uuid.uuid4().hex[:8]\<close>), the network and completion order of the register phase,
  the clock reading at the start of the soak, one \<open>wave_env\<close> per pass of the soak
  loop, and the outcome and decoder of the listing request.
\<close>

record driver_env =
  env_token :: string
  reg_net :: transport
  reg_order :: "nat list"
  t_start :: real
  waves :: "wave_env list"
  http_get :: "string \<Rightarrow> real \<Rightarrow> urlopen_outcome"
  json_loads :: "string \<Rightarrow> py_error + json"

text \<open>The values \<open>main\<close> has computed when it builds the summary.\<close>

record measurements =
  m_relay_count :: int
  m_register_latencies :: "real list"
  m_register_success_rate :: real
  m_register_p95_ms :: real
  m_heartbeat_total :: int
  m_heartbeat_success_rate :: real
  m_heartbeat_p95_ms :: real
  m_heartbeat_latencies :: "real list"
  m_missing :: "string list"
  m_soak_trace :: "soak_event list"

text \<open>
  \<open>main\<close> up to the computation of \<open>missing\<close>. \<open>None\<close>: the soak loop has not ended on the
  given environment. \<open>Inl (e, trace)\<close>: the exception \<open>e\<close> leaves \<open>main\<close>, after the waves and
  sleeps of \<open>trace\<close>.
\<close>

definition measure_run ::
  "driver_env \<Rightarrow> args \<Rightarrow> ((py_error \<times> soak_event list) + measurements) option" where
  "measure_run env args =
     (let relay_count = max 1 (arg_relay_count args);
          workers = max 1 (arg_workers args);
          token = env_token env;
          relay_ids = map (relay_id_of token) [0 ..< nat relay_count];
          (register_latencies, register_success) =
             register_phase (reg_net env) (reg_order env) args relay_ids;
          register_success_rate = of_int register_success / of_int relay_count
      in (case percentile register_latencies 0.95 of
            Inl e \<Rightarrow> Some (Inl (e, []))
          | Inr register_p95_ms \<Rightarrow>
       (let start = t_start env
        in (case soak_loop args relay_ids start (waves env)
                   \<lparr>heartbeat_total = 0, heartbeat_success = 0, heartbeat_latencies = [],
                    soak_trace = []\<rparr> of
              None \<Rightarrow> None
            | Some hb \<Rightarrow>
         (let heartbeat_success_rate =
                (if heartbeat_total hb \<noteq> 0
                 then of_int (heartbeat_success hb) / of_int (heartbeat_total hb) else 0)
          in (case percentile (heartbeat_latencies hb) 0.95 of
                Inl e \<Rightarrow> Some (Inl (e, soak_trace hb))
              | Inr heartbeat_p95_ms \<Rightarrow>
           (case get_json (http_get env) (json_loads env) (arg_master_url args @ ''/v1/relays'')
                   (arg_timeout_seconds args) of
              Inl e \<Rightarrow> Some (Inl (e, soak_trace hb))
            | Inr registered_relays \<Rightarrow>
             (case py_iter registered_relays of
                Inl e \<Rightarrow> Some (Inl (e, soak_trace hb))
              | Inr items \<Rightarrow>
               (case registered_ids_of items of
                  Inl e \<Rightarrow> Some (Inl (e, soak_trace hb))
                | Inr registered_ids \<Rightarrow>
                 (let missing =
                        filter (\<lambda>relay_id. JString relay_id \<notin> set registered_ids) relay_ids
                  in Some (Inr \<lparr>m_relay_count = relay_count,
                                m_register_latencies = register_latencies,
                                m_register_success_rate = register_success_rate,
                                m_register_p95_ms = register_p95_ms,
                                m_heartbeat_total = heartbeat_total hb,
                                m_heartbeat_success_rate = heartbeat_success_rate,
                                m_heartbeat_p95_ms = heartbeat_p95_ms,
                                m_heartbeat_latencies = heartbeat_latencies hb,
                                m_missing = missing,
                                m_soak_trace = soak_trace hb\<rparr>)))))))))))"

definition build_summary :: "measurements \<Rightarrow> summary" where
  "build_summary m =
     \<lparr>s_relay_count = m_relay_count m,
      s_register_success_rate = py_round (m_register_success_rate m) 4,
      s_register_p95_ms = py_round (m_register_p95_ms m) 2,
      s_heartbeat_total = m_heartbeat_total m,
      s_heartbeat_success_rate = py_round (m_heartbeat_success_rate m) 4,
      s_heartbeat_p95_ms = py_round (m_heartbeat_p95_ms m) 2,
      s_missing_registered_relays = int (length (m_missing m)),
      s_mean_heartbeat_ms =
        (if m_heartbeat_latencies m \<noteq> [] then py_round (mean (m_heartbeat_latencies m)) 2 else 0)\<rparr>"

text \<open>
  The rest of \<open>main\<close>: the summary is printed, then the objectives are checked in the
  order of the source, each \<^verbatim>\<open>return 1\<close> ending the function. The result is what was
  printed, in order, and the value returned.
\<close>

definition report :: "args \<Rightarrow> measurements \<Rightarrow> printed list \<times> int" where
  "report args m =
     (let printed = [Stdout_summary (build_summary m)] in
      if m_register_success_rate m < arg_min_success_rate args then
        (printed @ [Stderr_register_rate (m_register_success_rate m) (arg_min_success_rate args)], 1)
      else if m_heartbeat_success_rate m < arg_min_success_rate args then
        (printed @ [Stderr_heartbeat_rate (m_heartbeat_success_rate m) (arg_min_success_rate args)], 1)
      else if m_register_p95_ms m > arg_max_register_p95_ms args then
        (printed @ [Stderr_register_p95 (m_register_p95_ms m) (arg_max_register_p95_ms args)], 1)
      else if m_heartbeat_p95_ms m > arg_max_heartbeat_p95_ms args then
        (printed @ [Stderr_heartbeat_p95 (m_heartbeat_p95_ms m) (arg_max_heartbeat_p95_ms args)], 1)
      else if m_missing m \<noteq> [] then
        (printed @ [Stderr_missing (length (m_missing m)) (hd (m_missing m))], 1)
      else (printed, 0))"

text \<open>
  How a run ends: \<open>main\<close> returns a value, which \<^verbatim>\<open>raise SystemExit(main())\<close> makes the exit
  code, or an exception leaves \<open>main\<close> and the interpreter exits with a traceback.
\<close>

datatype ending = Returns int | Uncaught py_error

record run =
  run_printed :: "printed list"
  run_soak :: "soak_event list"
  run_ending :: ending

definition main :: "driver_env \<Rightarrow> args \<Rightarrow> run option" where
  "main env args =
     (case measure_run env args of
        None \<Rightarrow> None
      | Some (Inl (e, trace)) \<Rightarrow>
          Some \<lparr>run_printed = [], run_soak = trace, run_ending = Uncaught e\<rparr>
      | Some (Inr m) \<Rightarrow>
          (let (printed, code) = report args m
           in Some \<lparr>run_printed = printed, run_soak = m_soak_trace m, run_ending = Returns code\<rparr>))"

text \<open>The exit status of the process: an uncaught exception exits with status 1.\<close>

definition exit_code :: "ending \<Rightarrow> int" where
  "exit_code e = (case e of Returns code \<Rightarrow> code | Uncaught _ \<Rightarrow> 1)"

subsection \<open>The schedule and the exit policy as the specification words them\<close>

text \<open>
  The specification's soak schedule: a pass of the loop starts a wave while the time since
  the start of the phase is below the soak duration; a wave calls every relay of the run
  and is followed by a sleep of \<open>max(0, interval - wave_elapsed)\<close>.
\<close>

definition wave_due :: "args \<Rightarrow> real \<Rightarrow> wave_env \<Rightarrow> bool" where
  "wave_due args start w = (t_check w - start < of_int (arg_soak_seconds args))"

definition spec_sleep :: "args \<Rightarrow> wave_env \<Rightarrow> real" where
  "spec_sleep args w = max 0 (arg_interval_seconds args - (t_wave_end w - t_wave_start w))"

definition spec_schedule :: "args \<Rightarrow> string list \<Rightarrow> real \<Rightarrow> wave_env list \<Rightarrow> soak_event list" where
  "spec_schedule args relay_ids start ws =
     concat (map (\<lambda>w. [Wave relay_ids, Sleep (spec_sleep args w)])
               (takeWhile (wave_due args start) ws))"

text \<open>
  The heartbeat calls of one wave as the specification words them: for every relay of the
  run, one POST to the heartbeat endpoint whose payload names that relay. Each entry is
  the status, the milliseconds and the body the call gives.
\<close>

definition wave_calls :: "args \<Rightarrow> string list \<Rightarrow> wave_env \<Rightarrow> (int \<times> real \<times> string) list" where
  "wave_calls args relay_ids w =
     map (\<lambda>relay_id.
            post_json (hb_net w) (arg_master_url args @ ''/v1/relays/heartbeat'')
              (JObject [(''relay_id'', JString relay_id),
                        (''load_pct'', JFloat (of_int (hb_load w relay_id)))])
              (arg_timeout_seconds args))
         relay_ids"

text \<open>
  The specification's exit policy: the five objectives in their order, each with the
  diagnostic it reports.
\<close>

definition slo_violations :: "args \<Rightarrow> measurements \<Rightarrow> (bool \<times> printed) list" where
  "slo_violations args m =
     [(m_register_success_rate m < arg_min_success_rate args,
         Stderr_register_rate (m_register_success_rate m) (arg_min_success_rate args)),
      (m_heartbeat_success_rate m < arg_min_success_rate args,
         Stderr_heartbeat_rate (m_heartbeat_success_rate m) (arg_min_success_rate args)),
      (m_register_p95_ms m > arg_max_register_p95_ms args,
         Stderr_register_p95 (m_register_p95_ms m) (arg_max_register_p95_ms args)),
      (m_heartbeat_p95_ms m > arg_max_heartbeat_p95_ms args,
         Stderr_heartbeat_p95 (m_heartbeat_p95_ms m) (arg_max_heartbeat_p95_ms args)),
      (m_missing m \<noteq> [],
         Stderr_missing (length (m_missing m)) (hd (m_missing m)))]"

subsection \<open>Example runs\<close>

text \<open>
  A control plane that accepts every call in 5 ms and lists both relays of the run; the
  first wave takes 0.2 s and the second reading of the loop condition is past the soak.
\<close>

definition accept_all :: transport where
  "accept_all url payload timeout = (Response 200 ''{}'', 5)"

definition example_args :: args where
  "example_args =
     \<lparr>arg_master_url = ''http://m'', arg_relay_count = 2, arg_soak_seconds = 1,
      arg_interval_seconds = 1, arg_timeout_seconds = 3, arg_workers = 16,
      arg_min_success_rate = 0.98, arg_max_register_p95_ms = 400,
      arg_max_heartbeat_p95_ms = 450\<rparr>"

definition example_wave :: "real \<Rightarrow> real \<Rightarrow> wave_env" where
  "example_wave t dur =
     \<lparr>t_check = t, t_wave_start = t, t_wave_end = t + dur, hb_net = accept_all,
      hb_order = [1, 0], hb_load = (\<lambda>relay_id. 50)\<rparr>"

definition example_listing :: json where
  "example_listing =
     JArray [JObject [(''relay_id'', JString ''load-0a1b2c3d-000'')],
             JInt 7,
             JObject [(''relay_id'', JString ''load-0a1b2c3d-001'')]]"

definition example_env :: driver_env where
  "example_env =
     \<lparr>env_token = ''0a1b2c3d'', reg_net = accept_all, reg_order = [1, 0], t_start = 0,
      waves = [example_wave 0 0.2, example_wave 1.1 0.2],
      http_get = (\<lambda>url timeout. Response 200 ''[...]''),
      json_loads = (\<lambda>body. Inr example_listing)\<rparr>"

definition example_measurements :: measurements where
  "example_measurements =
     \<lparr>m_relay_count = 2, m_register_latencies = [5, 5],
      m_register_success_rate = 1, m_register_p95_ms = 5,
      m_heartbeat_total = 2, m_heartbeat_success_rate = 1,
      m_heartbeat_p95_ms = 5, m_heartbeat_latencies = [5, 5],
      m_missing = [],
      m_soak_trace = [Wave [''load-0a1b2c3d-000'', ''load-0a1b2c3d-001''], Sleep (4 / 5)]\<rparr>"

text \<open>The same run with the control plane unreachable for the listing request only.\<close>

definition listing_down_env :: driver_env where
  "listing_down_env = example_env\<lparr>http_get := (\<lambda>url timeout. Raises_other URLError)\<rparr>"




text \<open>The example run with a soak duration of zero seconds: no wave is started.\<close>

definition idle_args :: args where
  "idle_args = example_args\<lparr>arg_soak_seconds := 0\<rparr>"

definition idle_measurements :: measurements where
  "idle_measurements =
     \<lparr>m_relay_count = 2, m_register_latencies = [5, 5],
      m_register_success_rate = 1, m_register_p95_ms = 5,
      m_heartbeat_total = 0, m_heartbeat_success_rate = 0,
      m_heartbeat_p95_ms = 0, m_heartbeat_latencies = [],
      m_missing = [], m_soak_trace = []\<rparr>"

text \<open>
  Three readings of the soak loop for a soak of 1 s and an interval of 1 s: a wave of
  0.2 s, a wave of 1.5 s that overruns the interval, and a reading past the soak.
\<close>

definition example_ids :: "string list" where
  "example_ids = [''load-0a1b2c3d-000'', ''load-0a1b2c3d-001'']"

definition short_wave :: wave_env where
  "short_wave = example_wave 0 0.2"

definition long_wave :: wave_env where
  "long_wave = example_wave 0.5 1.5"

definition late_reading :: wave_env where
  "late_reading = example_wave 2.1 0.2"

definition overrun_waves :: "wave_env list" where
  "overrun_waves = [short_wave, long_wave, late_reading]"

section \<open>Chaos proxy: streams\<close>

text \<open>
  The asyncio streams are modelled by what the connection does. A \<open>stream_reader\<close> is the
  list of what arrives, in order: data, end of stream, or a connection error. When the
  list is empty nothing more will arrive and a read never completes (\<open>None\<close>).
  \<^verbatim>\<open>reader.read(n)\<close> returns at most \<open>n\<close> bytes of the data that has arrived, \<^verbatim>\<open>b""\<close> at end
  of stream, and raises on a connection error.
\<close>

type_synonym bytes = "char list"

datatype net_event = Data bytes | Eof | Reset

type_synonym stream_reader = "net_event list"

fun reader_read :: "nat \<Rightarrow> stream_reader \<Rightarrow> ((py_error + bytes) \<times> stream_reader) option" where
  "reader_read n [] = None"
| "reader_read n (Eof # evs) = Some (Inr [], Eof # evs)"
| "reader_read n (Reset # evs) = Some (Inl ConnectionResetError, Reset # evs)"
| "reader_read n (Data bs # evs) =
     (if bs = [] then reader_read n evs
      else Some (Inr (take n bs), if length bs \<le> n then evs else Data (drop n bs) # evs))"

text \<open>
  A \<open>stream_writer\<close> records the calls made on it and carries what the connection will do:
  how many further \<^verbatim>\<open>drain()\<close> calls succeed before the connection is lost (\<open>None\<close>: it is
  never lost), and the exception that \<^verbatim>\<open>close()\<close> or \<^verbatim>\<open>wait_closed()\<close> raises, if any. Each
  operation returns the exception raised, if any, and the writer.
\<close>

datatype writer_call = Write bytes | Drain | Close | Wait_closed

record stream_writer =
  call_log :: "writer_call list"
  drains_ok :: "nat option"
  close_raises :: "py_error option"
  wait_closed_raises :: "py_error option"

definition writer_write :: "stream_writer \<Rightarrow> bytes \<Rightarrow> stream_writer" where
  "writer_write w chunk = w\<lparr>call_log := call_log w @ [Write chunk]\<rparr>"

definition writer_drain :: "stream_writer \<Rightarrow> py_error option \<times> stream_writer" where
  "writer_drain w =
     (case drains_ok w of
        None \<Rightarrow> (None, w\<lparr>call_log := call_log w @ [Drain]\<rparr>)
      | Some 0 \<Rightarrow> (Some ConnectionResetError, w\<lparr>call_log := call_log w @ [Drain]\<rparr>)
      | Some (Suc k) \<Rightarrow> (None, w\<lparr>call_log := call_log w @ [Drain], drains_ok := Some k\<rparr>))"

definition writer_close :: "stream_writer \<Rightarrow> py_error option \<times> stream_writer" where
  "writer_close w = (close_raises w, w\<lparr>call_log := call_log w @ [Close]\<rparr>)"

definition writer_wait_closed :: "stream_writer \<Rightarrow> py_error option \<times> stream_writer" where
  "writer_wait_closed w = (wait_closed_raises w, w\<lparr>call_log := call_log w @ [Wait_closed]\<rparr>)"

text \<open>\<^verbatim>\<open>w.close(); await w.wait_closed()\<close>: the second call is not reached when the first raises.\<close>

definition close_and_wait :: "stream_writer \<Rightarrow> py_error option \<times> stream_writer" where
  "close_and_wait w =
     (case writer_close w of
        (Some e, w1) \<Rightarrow> (Some e, w1)
      | (None, w1) \<Rightarrow> writer_wait_closed w1)"

section \<open>Chaos proxy: forwarding\<close>

text \<open>The number of bytes still to arrive, plus one per event: it decreases with every read
  that returns data.\<close>

fun pending :: "stream_reader \<Rightarrow> nat" where
  "pending [] = 0"
| "pending (Data bs # evs) = Suc (length bs) + pending evs"
| "pending (e # evs) = Suc (pending evs)"

lemma reader_read_pending:
  "reader_read n r = Some (Inr chunk, r') \<Longrightarrow> chunk \<noteq> [] \<Longrightarrow> pending r' < pending r"
proof (induction n r rule: reader_read.induct)
  case (4 n bs evs)
  then show ?case
    by (cases "bs = []") (auto split: if_splits)
qed auto

text \<open>
  The \<^verbatim>\<open>while True\<close> loop of \<open>pipe\<close>: the exception that ends it, if any, and the reader and
  writer it leaves. \<open>None\<close>: a read never completes and the loop does not end.
\<close>

function pipe_loop ::
  "stream_reader \<Rightarrow> stream_writer \<Rightarrow> (py_error option \<times> stream_reader \<times> stream_writer) option" where
  "pipe_loop reader writer =
     (case reader_read 65536 reader of
        None \<Rightarrow> None
      | Some (Inl e, reader') \<Rightarrow> Some (Some e, reader', writer)
      | Some (Inr chunk, reader') \<Rightarrow>
          (if chunk = [] then Some (None, reader', writer)
           else (case writer_drain (writer_write writer chunk) of
                   (Some e, writer') \<Rightarrow> Some (Some e, reader', writer')
                 | (None, writer') \<Rightarrow> pipe_loop reader' writer')))"
  by pat_completeness auto
termination
  by (relation "measure (\<lambda>(reader, writer). pending reader)")
     (auto dest: reader_read_pending)

declare pipe_loop.simps [simp del]

text \<open>
  \<open>pipe\<close>: \<^verbatim>\<open>except Exception: pass\<close> discards the exception that ended the loop, and the
  \<^verbatim>\<open>finally\<close> block closes the writer under \<^verbatim>\<open>contextlib.suppress(Exception)\<close>. The first
  component of the result is the exception that leaves \<open>pipe\<close>.
\<close>

definition pipe ::
  "stream_reader \<Rightarrow> stream_writer \<Rightarrow> (py_error option \<times> stream_reader \<times> stream_writer) option" where
  "pipe reader writer =
     (case pipe_loop reader writer of
        None \<Rightarrow> None
      | Some (raised, reader', writer') \<Rightarrow>
          (let caught = (case raised of Some e \<Rightarrow> None | None \<Rightarrow> None);
               (suppressed, writer'') = close_and_wait writer'
           in Some (caught, reader', writer'')))"

section \<open>Chaos proxy: connections\<close>

record proxy_args =
  listen_host :: string
  listen_port :: int
  target_host :: string
  target_port :: int
  delay_ms :: int
  drop_every :: int

text \<open>The dictionary \<^verbatim>\<open>state\<close> shared by all connection handlers.\<close>

record proxy_state =
  conn_count :: int

text \<open>
  One accepted connection: the client's streams and what \<^verbatim>\<open>asyncio.open_connection\<close> to
  the target does when called, the upstream streams or an exception.
\<close>

record connection =
  client_reader :: stream_reader
  client_writer :: stream_writer
  upstream :: "py_error + (stream_reader \<times> stream_writer)"

text \<open>What a handler does besides calls on writers: it sleeps and it dials the target.\<close>

datatype proxy_event = Slept real | Dialed string int

text \<open>
  The record of one run of \<open>handle\<close>: its events in order, the client writer after the
  handler's own calls on it, the results of the two forwarding tasks when they were
  started (client to upstream, upstream to client; \<open>None\<close> for a task that never ends),
  and the exception that leaves the handler, if any.
\<close>

record session =
  ses_events :: "proxy_event list"
  ses_client_writer :: stream_writer
  ses_pipes :: "((py_error option \<times> stream_reader \<times> stream_writer) option
                 \<times> (py_error option \<times> stream_reader \<times> stream_writer) option) option"
  ses_raised :: "py_error option"

definition handle :: "proxy_args \<Rightarrow> proxy_state \<Rightarrow> connection \<Rightarrow> proxy_state \<times> session" where
  "handle args state conn =
     (let state' = state\<lparr>conn_count := conn_count state + 1\<rparr>;
          conn_idx = conn_count state'
      in if drop_every args > 0 \<and> conn_idx mod drop_every args = 0 then
           (let (raised, writer') = close_and_wait (client_writer conn)
            in (state', \<lparr>ses_events = [], ses_client_writer = writer', ses_pipes = None,
                         ses_raised = raised\<rparr>))
         else
           (let slept = (if delay_ms args > 0 then [Slept (of_int (delay_ms args) / 1000)] else []);
                events = slept @ [Dialed (target_host args) (target_port args)]
            in (case upstream conn of
                  Inl e \<Rightarrow>
                    (let (raised, writer') = close_and_wait (client_writer conn)
                     in (state', \<lparr>ses_events = events, ses_client_writer = writer',
                                  ses_pipes = None, ses_raised = raised\<rparr>))
                | Inr (upstream_reader, upstream_writer) \<Rightarrow>
                    (state', \<lparr>ses_events = events, ses_client_writer = client_writer conn,
                               ses_pipes = Some (pipe (client_reader conn) upstream_writer,
                                                 pipe upstream_reader (client_writer conn)),
                               ses_raised = None\<rparr>))))"

text \<open>
  The server runs one handler per accepted connection. A handler increments and reads the
  counter without awaiting in between, so the handlers take the counter values in the
  order in which the connections are accepted.
\<close>

fun serve :: "proxy_args \<Rightarrow> proxy_state \<Rightarrow> connection list \<Rightarrow> session list" where
  "serve args state [] = []"
| "serve args state (conn # conns) =
     (let (state', ses) = handle args state conn in ses # serve args state' conns)"

subsection \<open>What a forwarding task is to achieve\<close>

text \<open>The bytes handed to a writer, and the bytes of a reader up to its end or error.\<close>

fun written :: "writer_call list \<Rightarrow> bytes" where
  "written [] = []"
| "written (Write bs # cs) = bs @ written cs"
| "written (c # cs) = written cs"

fun incoming :: "stream_reader \<Rightarrow> bytes" where
  "incoming [] = []"
| "incoming (Data bs # evs) = bs @ incoming evs"
| "incoming (e # evs) = []"

definition ends :: "stream_reader \<Rightarrow> bool" where
  "ends reader = (Eof \<in> set reader \<or> Reset \<in> set reader)"

text \<open>
  How far a loop gets: to the end of its source when the writer's connection outlasts the
  chunks, else to the chunk whose \<^verbatim>\<open>drain()\<close> raises, which is the last one written.
\<close>

definition stops_at :: "nat option \<Rightarrow> nat \<Rightarrow> bytes \<Rightarrow> bool" where
  "stops_at budget written_chunks rest =
     (case budget of
        None \<Rightarrow> rest = []
      | Some d \<Rightarrow> (written_chunks \<le> d \<and> rest = []) \<or> written_chunks = d + 1)"

text \<open>The bytes a session has handed to the upstream writer.\<close>

definition forwarded_upstream :: "session \<Rightarrow> bytes" where
  "forwarded_upstream ses =
     (case ses_pipes ses of
        Some (Some (raised, reader, writer), to_client) \<Rightarrow> written (call_log writer)
      | _ \<Rightarrow> [])"

text \<open>The specification's drop rule, a function of the sequence number and the period.\<close>

definition drop_decision :: "int \<Rightarrow> int \<Rightarrow> bool" where
  "drop_decision s n = (n > 0 \<and> s mod n = 0)"

subsection \<open>Example connections\<close>

definition fresh_writer :: stream_writer where
  "fresh_writer = \<lparr>call_log = [], drains_ok = None, close_raises = None, wait_closed_raises = None\<rparr>"

definition echo_connection :: connection where
  "echo_connection =
     \<lparr>client_reader = [Data ''ping'', Eof],
      client_writer = fresh_writer,
      upstream = Inr ([Data ''ping'', Eof], fresh_writer)\<rparr>"

definition drop3 :: proxy_args where
  "drop3 = \<lparr>listen_host = ''127.0.0.1'', listen_port = 9000, target_host = ''127.0.0.1'',
            target_port = 8000, delay_ms = 0, drop_every = 3\<rparr>"

section \<open>Properties\<close>

subsection \<open>Decimal strings\<close>

lemma digit_val_digit_char: "d < 10 \<Longrightarrow> digit_val (digit_char d) = d"
proof -
  assume "d < 10"
  then have "d \<in> {0,1,2,3,4,5,6,7,8,9}" by auto
  then show ?thesis by (auto simp: digit_val_def digit_char_def)
qed

lemma is_digit_digit_char: "d < 10 \<Longrightarrow> is_digit (digit_char d)"
proof -
  assume "d < 10"
  then have "d \<in> {0,1,2,3,4,5,6,7,8,9}" by auto
  then show ?thesis by (auto simp: is_digit_def digit_char_def)
qed

lemma str_nat_digits: "\<forall>c \<in> set (str_nat n). is_digit c"
proof (induction n rule: str_nat.induct)
  case (1 n)
  show ?case
  proof (cases "n < 10")
    case True
    then show ?thesis by (subst str_nat.simps) (simp add: is_digit_digit_char)
  next
    case False
    with "1" show ?thesis by (subst str_nat.simps) (simp add: is_digit_digit_char)
  qed
qed

lemma nat_of_digits_snoc: "nat_of_digits (ds @ [c]) = 10 * nat_of_digits ds + digit_val c"
  by (simp add: nat_of_digits_def)

lemma nat_of_digits_str_nat: "nat_of_digits (str_nat n) = n"
proof (induction n rule: str_nat.induct)
  case (1 n)
  show ?case
  proof (cases "n < 10")
    case True
    then show ?thesis by (subst str_nat.simps) (simp add: nat_of_digits_def digit_val_digit_char)
  next
    case False
    with "1" show ?thesis
      by (subst str_nat.simps) (simp add: nat_of_digits_snoc digit_val_digit_char)
  qed
qed

lemma str_nat_inj: "str_nat m = str_nat n \<Longrightarrow> m = n"
  by (metis nat_of_digits_str_nat)

lemma prefix_digits_sep:
  assumes "\<forall>c \<in> set u. is_digit c" "\<forall>c \<in> set v. is_digit c"
    and "\<not> is_digit s" "\<not> is_digit t"
    and "prefix (u @ s # r) (v @ t # q)"
  shows "u = v \<and> prefix r q"
  using assms
proof (induction u arbitrary: v)
  case Nil
  then show ?case by (cases v) auto
next
  case (Cons x u)
  then show ?case by (cases v) auto
qed

lemma endpoint_shape:
  "generate_endpoint i =
     ''10.'' @ str_nat (nat (i mod 200 + 1)) @ CHR ''.'' #
       (str_nat (nat ((i div 200) mod 200 + 1)) @ CHR ''.'' #
         (''1:'' @ str_nat (nat (20000 + i mod 20000))))"
proof -
  have a: "str_int 10 = ''10''" "str_int 1 = ''1''"
    by (simp_all add: str_int_def str_nat.simps digit_char_def)
  have b: "\<not> i mod 200 + 1 < 0" "\<not> (i div 200) mod 200 + 1 < 0" "\<not> 20000 + i mod 20000 < 0"
    by simp_all
  show ?thesis
    unfolding generate_endpoint_def Let_def a
    by (simp only: str_int_def b if_False append.simps append_assoc)
qed

lemma endpoint_prefix_fields:
  assumes "prefix (generate_endpoint i) (generate_endpoint j)"
  shows "i mod 200 = j mod 200 \<and> (i div 200) mod 200 = (j div 200) mod 200"
proof -
  have nd: "\<not> is_digit CHR ''.''" by (simp add: is_digit_def)
  from assms have p1:
    "prefix (str_nat (nat (i mod 200 + 1)) @ CHR ''.'' #
       (str_nat (nat ((i div 200) mod 200 + 1)) @ CHR ''.'' #
         (''1:'' @ str_nat (nat (20000 + i mod 20000)))))
      (str_nat (nat (j mod 200 + 1)) @ CHR ''.'' #
       (str_nat (nat ((j div 200) mod 200 + 1)) @ CHR ''.'' #
         (''1:'' @ str_nat (nat (20000 + j mod 20000)))))"
    by (simp add: endpoint_shape)
  from prefix_digits_sep [OF str_nat_digits str_nat_digits nd nd p1]
  have b: "str_nat (nat (i mod 200 + 1)) = str_nat (nat (j mod 200 + 1))"
    and p2: "prefix (str_nat (nat ((i div 200) mod 200 + 1)) @ CHR ''.'' #
         (''1:'' @ str_nat (nat (20000 + i mod 20000))))
       (str_nat (nat ((j div 200) mod 200 + 1)) @ CHR ''.'' #
         (''1:'' @ str_nat (nat (20000 + j mod 20000))))"
    by simp_all
  from prefix_digits_sep [OF str_nat_digits str_nat_digits nd nd p2]
  have c: "str_nat (nat ((i div 200) mod 200 + 1)) = str_nat (nat ((j div 200) mod 200 + 1))"
    by simp
  have nat_eq: "\<And>x y :: int. 0 \<le> x \<Longrightarrow> 0 \<le> y \<Longrightarrow> nat (x + 1) = nat (y + 1) \<Longrightarrow> x = y"
    by arith
  from b have "nat (i mod 200 + 1) = nat (j mod 200 + 1)" by (rule str_nat_inj)
  then have "i mod 200 = j mod 200" by (rule nat_eq [rotated 2]) simp_all
  moreover from c have "nat ((i div 200) mod 200 + 1) = nat ((j div 200) mod 200 + 1)"
    by (rule str_nat_inj)
  then have "(i div 200) mod 200 = (j div 200) mod 200" by (rule nat_eq [rotated 2]) simp_all
  ultimately show ?thesis by simp
qed

lemma endpoint_prefix_same_index:
  assumes "0 \<le> i" "i < 40000" "0 \<le> j" "j < 40000"
    and "prefix (generate_endpoint i) (generate_endpoint j)"
  shows "i = j"
proof -
  from endpoint_prefix_fields [OF assms(5)]
  have m: "i mod 200 = j mod 200" and d: "(i div 200) mod 200 = (j div 200) mod 200"
    by simp_all
  from assms have "0 \<le> i div 200" "i div 200 < 200" "0 \<le> j div 200" "j div 200 < 200"
    by (simp_all add: pos_imp_zdiv_nonneg_iff div_less_iff_less_mult)
  with d have "i div 200 = j div 200" by simp
  with m have "200 * (i div 200) + i mod 200 = 200 * (j div 200) + j mod 200" by simp
  then show ?thesis by (simp only: mult_div_mod_eq)
qed

text \<open>
  C1: for distinct relay indices \<open>i\<close>, \<open>j\<close> in the covered range \<open>0 \<le> i, j < 200 * 200\<close>,
  the generated endpoints are different strings and neither is a prefix of the other.
\<close>

theorem generate_endpoint_prefix_free:
  "\<lbrakk>0 \<le> i; i < 40000; 0 \<le> j; j < 40000; i \<noteq> j\<rbrakk>
   \<Longrightarrow> generate_endpoint i \<noteq> generate_endpoint j
     \<and> \<not> prefix (generate_endpoint i) (generate_endpoint j)
     \<and> \<not> prefix (generate_endpoint j) (generate_endpoint i)"
proof -
  assume r: "0 \<le> i" "i < 40000" "0 \<le> j" "j < 40000" and ne: "i \<noteq> j"
  have "\<not> prefix (generate_endpoint i) (generate_endpoint j)"
    using endpoint_prefix_same_index [OF r] ne by blast
  moreover have "\<not> prefix (generate_endpoint j) (generate_endpoint i)"
    using endpoint_prefix_same_index [OF r(3,4) r(1,2)] ne by blast
  moreover from calculation have "generate_endpoint i \<noteq> generate_endpoint j"
    by auto
  ultimately show ?thesis by simp
qed

theorem generate_endpoint_prefix_free_witness:
  "generate_endpoint 1 = ''10.2.1.1:20001'' \<and> generate_endpoint 10 = ''10.11.1.1:20010''
   \<and> generate_endpoint 1 \<noteq> generate_endpoint 10
   \<and> \<not> prefix (generate_endpoint 1) (generate_endpoint 10)
   \<and> \<not> prefix (generate_endpoint 10) (generate_endpoint 1)"
proof -
  have e: "generate_endpoint 1 = ''10.2.1.1:20001''" "generate_endpoint 10 = ''10.11.1.1:20010''"
    by (simp_all add: generate_endpoint_def str_int_def str_nat.simps digit_char_def)
  from generate_endpoint_prefix_free [of 1 10] e show ?thesis by simp
qed

text \<open>The range is the whole covered space: index \<open>200 * 200\<close> repeats the endpoint of index 0.\<close>

lemma generate_endpoint_wraps: "generate_endpoint 40000 = generate_endpoint 0"
  by (simp add: generate_endpoint_def)

subsection \<open>Percentile\<close>

lemma py_int_nonneg: "0 \<le> x \<Longrightarrow> py_int x = \<lfloor>x\<rfloor>"
  by (simp add: py_int_def)

lemma py_getitem_in_range: "0 \<le> i \<Longrightarrow> i < int (length xs) \<Longrightarrow> py_getitem xs i = Inr (xs ! nat i)"
  by (simp add: py_getitem_def)

lemma percentile_index_bounds:
  assumes "values \<noteq> []" "0 \<le> pct" "pct \<le> 1"
  shows "0 \<le> py_int (of_int (int (length values) - 1) * pct)"
    and "py_int (of_int (int (length values) - 1) * pct) < int (length values)"
proof -
  let ?m = "of_int (int (length values) - 1) :: real"
  from assms(1) have m0: "0 \<le> ?m" by (cases "values") simp_all
  with assms(2) have p0: "0 \<le> ?m * pct" by simp
  then show "0 \<le> py_int (?m * pct)" by (simp add: py_int_nonneg)
  from m0 assms(3) have "?m * pct \<le> ?m" by (simp add: mult_left_le)
  then have "\<lfloor>?m * pct\<rfloor> \<le> int (length values) - 1" by (simp add: floor_le_iff) linarith
  with p0 show "py_int (?m * pct) < int (length values)" by (simp add: py_int_nonneg)
qed

subsection \<open>Percentile with the double product\<close>

lemma round_half_even_nonneg: "0 \<le> y \<Longrightarrow> 0 \<le> round_half_even y"
  by (auto simp: round_half_even_def Let_def)

lemma ulp_pos: "0 < ulp x"
  by (simp add: ulp_def Let_def)

lemma fl_nonneg: "0 \<le> x \<Longrightarrow> 0 \<le> fl x"
proof -
  assume "0 \<le> x"
  with ulp_pos [of x] have "0 \<le> x / ulp x" by simp
  then have "0 \<le> round_half_even (x / ulp x)" by (rule round_half_even_nonneg)
  with ulp_pos [of x] show ?thesis by (simp add: fl_def)
qed

lemmas fl_eval = fl_def ulp_def exponent_def ilog2.simps round_half_even_def Let_def

text \<open>Some doubles and double products, as \<^verbatim>\<open>float.as_integer_ratio\<close> gives them.\<close>

lemma fl_values:
  "fl 0.95 = 4278419646001971 / 2 ^ 52"
  "fl (3 * (4278419646001971 / 2 ^ 52)) = 1604407367250739 / 2 ^ 49"
  "fl 0.58 = 5224175567749775 / 2 ^ 53"
  "fl (50 * (5224175567749775 / 2 ^ 53)) = 8162774324609023 / 2 ^ 48"
  "fl 0.1 = 3602879701896397 / 2 ^ 55"
  "fl (- 0.25) = - 0.25"
  "fl (2 * - 0.25) = - 0.5"
  "fl (123456789 * (4278419646001971 / 2 ^ 52)) = 7870792619733811 / 2 ^ 26"
  by (simp_all add: fl_eval)

lemma percentile_ieee_exact:
  "py_int (fl (of_int (int (length values) - 1) * fl pct))
     = py_int (of_int (int (length values) - 1) * pct)
   \<Longrightarrow> percentile_ieee values pct = percentile values pct"
  by (simp add: percentile_ieee_def percentile_def)

text \<open>
  The product of line 26 is a double: for the 51 values 0..50 and \<open>pct = 0.58\<close> the
  interpreter computes \<open>50 * 0.58 = 28.999999999999996\<close> and returns the value at index 28,
  where the exact product is 29.
\<close>

lemma percentile_ieee_rounds_product:
  "percentile_ieee (map of_int [0..50]) 0.58 = Inr 28
   \<and> percentile (map of_int [0..50]) 0.58 = Inr 29"
proof -
  have s: "sort (map of_int [0..50] :: real list) = map of_int [0..50]"
    by (rule sorted_sort_id) (simp add: sorted_map sorted_upto strict_mono_on_imp_mono_on)
  have l: "int (length (map of_int [0..50] :: real list)) - 1 = 50" by simp
  have ne: "(map of_int [0..50] :: real list) \<noteq> []" by simp
  have i: "py_int (8162774324609023 / 2 ^ 48) = 28" "py_int (50 * (0.58 :: real)) = 29"
    by (simp_all add: py_int_def)
  have g: "py_getitem (map of_int [0..50] :: real list) 28 = Inr 28"
    "py_getitem (map of_int [0..50] :: real list) 29 = Inr 29"
    by (simp_all add: py_getitem_def)
  show ?thesis
    unfolding percentile_ieee_def percentile_def Let_def s l
    by (simp only: ne if_False of_int_numeral fl_values i g simp_thms)
qed

text \<open>
  C2 as the code has it: \<open>percentile\<close> of the empty list is \<open>0.0\<close>; for a non-empty list the
  result is \<^verbatim>\<open>ordered[int(p)]\<close>, where \<open>p\<close> is the double product \<open>(n - 1) * pct\<close>, \<^verbatim>\<open>int\<close>
  truncates toward zero and the index is read as Python reads it; so for \<open>pct \<ge> 0\<close> with the
  floor of the double product below \<open>n\<close>, the result is the element of the ascending-sorted
  list at that floor index. The three fixtures of the specification hold.
\<close>

theorem percentile_double_index:
  "percentile_ieee [] pct = Inr 0
   \<and> percentile_ieee [10] 0.95 = Inr 10
   \<and> percentile_ieee [10, 20, 30, 40] 0.95 = Inr 30
   \<and> (values \<noteq> [] \<and> 0 \<le> pct
        \<and> \<lfloor>fl (of_int (int (length values) - 1) * fl pct)\<rfloor> < int (length values)
      \<longrightarrow> percentile_ieee values pct
            = Inr (sort values ! nat \<lfloor>fl (of_int (int (length values) - 1) * fl pct)\<rfloor>))
   \<and> (values \<noteq> []
      \<longrightarrow> percentile_ieee values pct
            = py_getitem (sort values)
                (py_int (fl (of_int (int (length values) - 1) * fl pct))))"
proof -
  have e: "percentile_ieee [] pct = Inr 0"
    by (simp add: percentile_ieee_def)
  have one: "percentile_ieee [10] 0.95 = Inr 10"
    by (simp add: percentile_ieee_def py_int_def py_getitem_def fl_def)
  have four: "percentile_ieee [10, 20, 30, 40] 0.95 = Inr 30"
    by (simp add: percentile_ieee_def fl_eval py_int_def py_getitem_def)
  have gen: "percentile_ieee values pct
      = Inr (sort values ! nat \<lfloor>fl (of_int (int (length values) - 1) * fl pct)\<rfloor>)"
    if ne: "values \<noteq> []" and p0: "0 \<le> pct"
      and hi: "\<lfloor>fl (of_int (int (length values) - 1) * fl pct)\<rfloor> < int (length values)"
  proof -
    let ?p = "of_int (int (length values) - 1) * fl pct"
    from ne have "0 \<le> (of_int (int (length values) - 1) :: real)" by (cases "values") simp_all
    moreover from p0 have "0 \<le> fl pct" by (rule fl_nonneg)
    ultimately have "0 \<le> ?p" by simp
    then have f0: "0 \<le> fl ?p" by (rule fl_nonneg)
    then have t: "py_int (fl ?p) = \<lfloor>fl ?p\<rfloor>" by (rule py_int_nonneg)
    from f0 have lo: "0 \<le> \<lfloor>fl ?p\<rfloor>" by simp
    have "py_getitem (sort values) \<lfloor>fl ?p\<rfloor> = Inr (sort values ! nat \<lfloor>fl ?p\<rfloor>)"
      using lo hi by (simp add: py_getitem_in_range)
    with t ne show ?thesis by (simp add: percentile_ieee_def)
  qed
  have any: "percentile_ieee values pct
      = py_getitem (sort values) (py_int (fl (of_int (int (length values) - 1) * fl pct)))"
    if "values \<noteq> []"
    using that by (simp add: percentile_ieee_def)
  from e one four gen any show ?thesis by blast
qed

theorem percentile_double_index_witness:
  "[30, 10, 40, 20] \<noteq> ([] :: real list)
   \<and> fl 0.5 = 0.5
   \<and> \<lfloor>fl (of_int (int (length [30, 10, 40, 20 :: real]) - 1) * fl 0.5)\<rfloor> = 1
   \<and> sort [30, 10, 40, 20 :: real] ! 1 = 20
   \<and> percentile_ieee [30, 10, 40, 20] 0.5 = Inr 20"
  using percentile_double_index [of "0.5" "[30, 10, 40, 20]"]
  by (simp add: fl_eval)

text \<open>
  The claim as it is worded, at \<open>pct = -0.25\<close> and at \<open>pct = 2\<close> on the list 1, 2, 3. The first
  product is \<open>-0.5\<close> exactly: its floor index is \<open>-1\<close>, which Python reads as the last
  element, 3, while \<^verbatim>\<open>int\<close> truncates to index 0 and the code returns 1. The second product
  is 4: there is no such element and the code raises \<^verbatim>\<open>IndexError\<close>.
\<close>

theorem percentile_floor_index_counterexample:
  "fl (- 0.25) = - 0.25
   \<and> fl (of_int (int (length [1, 2, 3 :: real]) - 1) * fl (- 0.25)) = - 0.5
   \<and> \<lfloor>- 0.5 :: real\<rfloor> = - 1
   \<and> py_getitem (sort [1, 2, 3 :: real]) (- 1) = Inr 3
   \<and> percentile_ieee [1, 2, 3] (- 0.25) = Inr 1
   \<and> percentile_ieee [1, 2, 3] 2 = Inl IndexError"
proof -
  have z: "fl (- 0.25) = - 0.25" by (simp add: fl_eval)
  have a: "fl (of_int (int (length [1, 2, 3 :: real]) - 1) * fl (- 0.25)) = - 0.5"
    by (simp add: fl_eval)
  have b: "\<lfloor>- 0.5 :: real\<rfloor> = - 1" by simp
  have c: "py_getitem (sort [1, 2, 3 :: real]) (- 1) = Inr 3"
    by (simp add: py_getitem_def)
  have d: "percentile_ieee [1, 2, 3] (- 0.25) = Inr 1"
    by (simp add: percentile_ieee_def fl_eval py_int_def py_getitem_def)
  have e: "percentile_ieee [1, 2, 3] 2 = Inl IndexError"
    by (simp add: percentile_ieee_def fl_eval py_int_def py_getitem_def)
  from z a b c d e show ?thesis by (intro conjI)
qed

text \<open>
  C10: for a non-empty list and \<open>0 \<le> pct \<le> 1\<close> the index computed by \<open>percentile\<close> is a
  position of the sorted list, so no \<open>IndexError\<close> is raised and the result is one of the
  input values.
\<close>

theorem percentile_index_in_bounds:
  assumes "values \<noteq> []" "0 \<le> pct" "pct \<le> 1"
  shows "0 \<le> py_int (of_int (int (length (sort values)) - 1) * pct)
    \<and> py_int (of_int (int (length (sort values)) - 1) * pct) < int (length (sort values))
    \<and> (\<exists>x \<in> set values. percentile values pct = Inr x)"
proof -
  let ?i = "py_int (of_int (int (length values) - 1) * pct)"
  from percentile_index_bounds [OF assms]
  have lo: "0 \<le> ?i" and hi: "?i < int (length values)" .
  then have "py_getitem (sort values) ?i = Inr (sort values ! nat ?i)"
    by (simp add: py_getitem_in_range)
  with assms(1) have p: "percentile values pct = Inr (sort values ! nat ?i)"
    by (simp add: percentile_def)
  from lo hi have "nat ?i < length (sort values)" by simp
  then have "sort values ! nat ?i \<in> set (sort values)" by (rule nth_mem)
  then have "sort values ! nat ?i \<in> set values" by simp
  with p lo hi show ?thesis by auto
qed

theorem percentile_index_in_bounds_witness:
  "[3, 1, 2] \<noteq> ([] :: real list) \<and> (0 :: real) \<le> 1
   \<and> py_int (of_int (int (length (sort [3, 1, 2 :: real])) - 1) * 1) = 2
   \<and> percentile [3, 1, 2] 1 = Inr 3"
proof -
  have v: "percentile [3, 1, 2] 1 = Inr 3"
    by (simp add: percentile_def py_int_def py_getitem_def)
  from percentile_index_in_bounds [of "[3, 1, 2]" 1] v show ?thesis
    by (simp add: py_int_def)
qed

subsection \<open>The run of the driver\<close>

lemma measure_run_Inr:
  assumes "measure_run env args = Some (Inr m)"
  obtains hb registered_ids where
    "soak_loop args (map (relay_id_of (env_token env)) [0 ..< nat (max 1 (arg_relay_count args))])
       (t_start env) (waves env)
       \<lparr>heartbeat_total = 0, heartbeat_success = 0, heartbeat_latencies = [], soak_trace = []\<rparr>
      = Some hb"
    "m_relay_count m = max 1 (arg_relay_count args)"
    "m_register_latencies m
      = fst (register_phase (reg_net env) (reg_order env) args
               (map (relay_id_of (env_token env)) [0 ..< nat (max 1 (arg_relay_count args))]))"
    "m_register_success_rate m
      = of_int (snd (register_phase (reg_net env) (reg_order env) args
               (map (relay_id_of (env_token env)) [0 ..< nat (max 1 (arg_relay_count args))])))
        / of_int (max 1 (arg_relay_count args))"
    "percentile (m_register_latencies m) 0.95 = Inr (m_register_p95_ms m)"
    "m_heartbeat_total m = heartbeat_total hb"
    "m_heartbeat_success_rate m
      = (if heartbeat_total hb \<noteq> 0
         then of_int (heartbeat_success hb) / of_int (heartbeat_total hb) else 0)"
    "m_heartbeat_latencies m = heartbeat_latencies hb"
    "percentile (heartbeat_latencies hb) 0.95 = Inr (m_heartbeat_p95_ms m)"
    "m_missing m
      = filter (\<lambda>relay_id. JString relay_id \<notin> set registered_ids)
          (map (relay_id_of (env_token env)) [0 ..< nat (max 1 (arg_relay_count args))])"
    "m_soak_trace m = soak_trace hb"
  using assms unfolding measure_run_def Let_def
  by (auto split: sum.splits option.splits prod.splits)


lemma measure_run_heartbeat:
  assumes "measure_run env args = Some (Inr m)"
  shows "\<exists>hb.
    soak_loop args (map (relay_id_of (env_token env)) [0 ..< nat (max 1 (arg_relay_count args))])
       (t_start env) (waves env)
       \<lparr>heartbeat_total = 0, heartbeat_success = 0, heartbeat_latencies = [], soak_trace = []\<rparr>
      = Some hb
    \<and> m_heartbeat_total m = heartbeat_total hb
    \<and> m_heartbeat_success_rate m
      = (if heartbeat_total hb \<noteq> 0
         then of_int (heartbeat_success hb) / of_int (heartbeat_total hb) else 0)
    \<and> m_heartbeat_latencies m = heartbeat_latencies hb
    \<and> m_soak_trace m = soak_trace hb"
  by (rule measure_run_Inr [OF assms]) blast

lemma as_completed_mset:
  assumes "mset order = mset [0 ..< length futs]"
  shows "mset (as_completed order futs) = mset futs"
proof -
  from assms have "set order = {0 ..< length futs}"
    by (metis set_mset_mset set_upt)
  then have "filter (\<lambda>i. i < length futs) order = order"
    by (auto simp: filter_id_conv)
  then have "mset (as_completed order futs) = image_mset ((!) futs) (mset order)"
    by (simp add: as_completed_def)
  also have "\<dots> = mset (map ((!) futs) [0 ..< length futs])"
    by (simp add: assms)
  also have "\<dots> = mset futs"
    by (simp add: map_nth)
  finally show ?thesis .
qed


lemma register_one_ok:
  "register_one net master_url relay_id endpoint timeout = (ok, latency_ms, status)
   \<Longrightarrow> ok = (200 \<le> status \<and> status < 300)"
  by (auto simp: register_one_def Let_def split: prod.splits)


lemma percentile_total:
  assumes "0 \<le> pct" "pct \<le> 1"
  shows "\<exists>v. percentile xs pct = Inr v"
proof (cases "xs = []")
  case True
  then show ?thesis by (simp add: percentile_def)
next
  case False
  from percentile_index_bounds [OF False assms]
  show ?thesis using False by (simp add: percentile_def py_getitem_def)
qed






lemma report_eq:
  "report args m
     = (Stdout_summary (build_summary m) # map snd (take 1 (filter fst (slo_violations args m))),
        if list_ex fst (slo_violations args m) then 1 else 0)"
  by (simp add: report_def slo_violations_def Let_def)

lemma main_reports:
  assumes "measure_run env args = Some (Inr m)"
  shows "main env args
     = Some \<lparr>run_printed = fst (report args m), run_soak = m_soak_trace m,
             run_ending = Returns (snd (report args m))\<rparr>"
  using assms by (simp add: main_def split: prod.splits)

text \<open>
  When the run reaches the summary, \<open>main\<close> prints the summary first and returns a nonzero
  code exactly when one of the five objectives is violated; the only diagnostic is that
  of the first violated objective in the order register rate, heartbeat rate, register
  p95, heartbeat p95, missing relays.
\<close>

lemma exit_policy_after_summary:
  assumes "measure_run env args = Some (Inr m)"
  shows "\<exists>code diagnostics.
      main env args
        = Some \<lparr>run_printed = Stdout_summary (build_summary m) # diagnostics,
                run_soak = m_soak_trace m, run_ending = Returns code\<rparr>
    \<and> (code \<noteq> 0 \<longleftrightarrow>
          m_register_success_rate m < arg_min_success_rate args
        \<or> m_heartbeat_success_rate m < arg_min_success_rate args
        \<or> m_register_p95_ms m > arg_max_register_p95_ms args
        \<or> m_heartbeat_p95_ms m > arg_max_heartbeat_p95_ms args
        \<or> m_missing m \<noteq> [])
    \<and> diagnostics = map snd (take 1 (filter fst (slo_violations args m)))
    \<and> code = (if diagnostics = [] then 0 else 1)"
proof -
  let ?d = "map snd (take 1 (filter fst (slo_violations args m)))"
  let ?c = "if list_ex fst (slo_violations args m) then 1 else 0 :: int"
  have m: "main env args
        = Some \<lparr>run_printed = Stdout_summary (build_summary m) # ?d,
                run_soak = m_soak_trace m, run_ending = Returns ?c\<rparr>"
    by (simp add: main_reports [OF assms] report_eq)
  have v: "?c \<noteq> 0 \<longleftrightarrow>
          m_register_success_rate m < arg_min_success_rate args
        \<or> m_heartbeat_success_rate m < arg_min_success_rate args
        \<or> m_register_p95_ms m > arg_max_register_p95_ms args
        \<or> m_heartbeat_p95_ms m > arg_max_heartbeat_p95_ms args
        \<or> m_missing m \<noteq> []"
    by (simp add: slo_violations_def)
  have "?d = [] \<longleftrightarrow> \<not> list_ex fst (slo_violations args m)"
    by (simp add: slo_violations_def)
  then have c: "?c = (if ?d = [] then 0 else 1)"
    by simp
  from m v c show ?thesis by blast
qed

lemma example_run: "measure_run example_env example_args = Some (Inr example_measurements)"
  by code_simp

text \<open>
  C4, at a concrete run. With the listing reachable the run measures
  \<open>example_measurements\<close>, violates none of the five objectives, prints the summary and
  returns 0. When the listing request alone fails, the exception leaves \<open>get_json\<close> and
  \<open>main\<close> before the summary is printed: the exit status is nonzero although no
  objective is violated, and there is no summary.
\<close>

theorem listing_failure_exit_without_summary:
  "measure_run example_env example_args = Some (Inr example_measurements)
   \<and> \<not> list_ex fst (slo_violations example_args example_measurements)
   \<and> main example_env example_args
       = Some \<lparr>run_printed = [Stdout_summary (build_summary example_measurements)],
               run_soak = m_soak_trace example_measurements, run_ending = Returns 0\<rparr>
   \<and> main listing_down_env example_args
       = Some \<lparr>run_printed = [], run_soak = m_soak_trace example_measurements,
               run_ending = Uncaught URLError\<rparr>
   \<and> exit_code (Uncaught URLError) \<noteq> 0"
proof -
  have v: "\<not> list_ex fst (slo_violations example_args example_measurements)"
    by (simp add: slo_violations_def example_args_def example_measurements_def)
  have f: "filter fst (slo_violations example_args example_measurements) = []"
    "\<not> list_ex fst (slo_violations example_args example_measurements)"
    by (simp_all add: slo_violations_def example_args_def example_measurements_def)
  have up: "main example_env example_args
       = Some \<lparr>run_printed = [Stdout_summary (build_summary example_measurements)],
               run_soak = m_soak_trace example_measurements, run_ending = Returns 0\<rparr>"
    by (simp add: main_reports [OF example_run] report_eq f)
  have down: "main listing_down_env example_args
       = Some \<lparr>run_printed = [], run_soak = m_soak_trace example_measurements,
               run_ending = Uncaught URLError\<rparr>"
    by code_simp
  have x: "exit_code (Uncaught URLError) \<noteq> 0"
    by (simp add: exit_code_def)
  from example_run v up down x show ?thesis by (intro conjI)
qed

lemma post_json_transport_failure:
  assumes "net url payload timeout = (Raises_other e, elapsed_ms)"
  shows "post_json net url payload timeout = (0, elapsed_ms, '''')"
    and "register_one net master_url relay_id endpoint timeout' = (ok, latency_ms, status)
         \<Longrightarrow> status = 0 \<Longrightarrow> \<not> ok"
  using assms by (auto simp: post_json_def register_one_def Let_def split: prod.splits)

lemma get_json_raises:
  "fetch url timeout = Raises_other e \<Longrightarrow> get_json fetch loads url timeout = Inl e"
  by (simp add: get_json_def)

lemma measure_run_listing_failure:
  assumes "soak_loop args (map (relay_id_of (env_token env)) [0 ..< nat (max 1 (arg_relay_count args))])
       (t_start env) (waves env)
       \<lparr>heartbeat_total = 0, heartbeat_success = 0, heartbeat_latencies = [], soak_trace = []\<rparr>
      = Some hb"
    and "http_get env (arg_master_url args @ ''/v1/relays'') (arg_timeout_seconds args)
          = Raises_other e"
  shows "main env args
     = Some \<lparr>run_printed = [], run_soak = soak_trace hb, run_ending = Uncaught e\<rparr>"
proof -
  obtain lat succ where rp: "register_phase (reg_net env) (reg_order env) args
      (map (relay_id_of (env_token env)) [0 ..< nat (max 1 (arg_relay_count args))]) = (lat, succ)"
    by (cases "register_phase (reg_net env) (reg_order env) args
      (map (relay_id_of (env_token env)) [0 ..< nat (max 1 (arg_relay_count args))])")
  obtain p1 where p1: "percentile lat 0.95 = Inr p1"
    using percentile_total [of "0.95" lat] by auto
  obtain p2 where p2: "percentile (heartbeat_latencies hb) 0.95 = Inr p2"
    using percentile_total [of "0.95" "heartbeat_latencies hb"] by auto
  have g: "get_json (http_get env) (json_loads env) (arg_master_url args @ ''/v1/relays'')
      (arg_timeout_seconds args) = Inl e"
    by (simp add: get_json_def assms(2))
  have "measure_run env args = Some (Inl (e, soak_trace hb))"
    unfolding measure_run_def Let_def rp prod.case p1 sum.case assms(1) option.case p2 g
    by (rule refl)
  then show ?thesis by (simp add: main_def)
qed

text \<open>
  C5, at a concrete run: every register and heartbeat call succeeds, the listing request
  meets a transport failure after the soak; the exception leaves \<open>main\<close>, nothing is printed
  and the process ends with a traceback. The same run with the listing reachable
  returns 0.
\<close>

theorem listing_transport_failure_aborts_run:
  "main listing_down_env example_args
     = Some \<lparr>run_printed = [], run_soak = [Wave example_ids, Sleep (4 / 5)],
             run_ending = Uncaught URLError\<rparr>
   \<and> exit_code (Uncaught URLError) = 1
   \<and> run_ending (the (main example_env example_args)) = Returns 0"
  by code_simp

lemma idle_run: "measure_run example_env idle_args = Some (Inr idle_measurements)"
  by code_simp

lemma measure_run_total:
  assumes "soak_loop args (map (relay_id_of (env_token env)) [0 ..< nat (max 1 (arg_relay_count args))])
       (t_start env) (waves env)
       \<lparr>heartbeat_total = 0, heartbeat_success = 0, heartbeat_latencies = [], soak_trace = []\<rparr>
      = Some hb"
  shows "\<exists>x. measure_run env args = Some x"
  unfolding measure_run_def Let_def assms option.case
  by (simp split: sum.splits prod.splits)

lemma measure_run_Inl_trace:
  assumes "soak_loop args (map (relay_id_of (env_token env)) [0 ..< nat (max 1 (arg_relay_count args))])
       (t_start env) (waves env)
       \<lparr>heartbeat_total = 0, heartbeat_success = 0, heartbeat_latencies = [], soak_trace = []\<rparr>
      = Some hb"
    and "measure_run env args = Some (Inl (e, trace))"
  shows "trace = [] \<or> trace = soak_trace hb"
  using assms(2) unfolding measure_run_def Let_def assms(1) option.case
  by (auto split: sum.splits prod.splits)

lemma soak_nonpositive_no_wave:
  "arg_soak_seconds args \<le> 0 \<Longrightarrow> start \<le> t_check w \<Longrightarrow> \<not> wave_due args start w"
proof -
  assume a: "arg_soak_seconds args \<le> 0" "start \<le> t_check w"
  then have "(of_int (arg_soak_seconds args) :: real) \<le> 0" by simp
  with a(2) show ?thesis by (simp add: wave_due_def)
qed

text \<open>
  C9: when the loop condition fails at its first reading (as it does for a soak duration
  \<open>\<le> 0\<close>), no wave runs, \<open>heartbeat_total\<close> is 0 and the heartbeat success rate is 0.0; with
  a positive minimum success rate the process exits with code 1, and when the register
  rate meets the threshold the reported cause is the heartbeat success rate.
\<close>

theorem no_wave_fails_heartbeat_rate:
  assumes "waves env = w # ws"
    and "\<not> wave_due args (t_start env) w"
    and "0 < arg_min_success_rate args"
  shows "\<exists>r. main env args = Some r
     \<and> exit_code (run_ending r) = 1
     \<and> run_soak r = []
     \<and> (\<forall>m. measure_run env args = Some (Inr m) \<longrightarrow>
           m_heartbeat_total m = 0
         \<and> m_heartbeat_success_rate m = 0
         \<and> run_ending r = Returns 1
         \<and> (arg_min_success_rate args \<le> m_register_success_rate m \<longrightarrow>
               run_printed r = [Stdout_summary (build_summary m),
                                Stderr_heartbeat_rate 0 (arg_min_success_rate args)]))"
proof -
  let ?ids = "map (relay_id_of (env_token env)) [0 ..< nat (max 1 (arg_relay_count args))]"
  let ?hb0 = "\<lparr>heartbeat_total = 0, heartbeat_success = 0, heartbeat_latencies = [],
               soak_trace = []\<rparr>"
  from assms(1,2) have sl: "soak_loop args ?ids (t_start env) (waves env) ?hb0 = Some ?hb0"
    by (simp add: wave_due_def)
  from measure_run_total [OF sl] obtain x where x: "measure_run env args = Some x" ..
  show ?thesis
  proof (cases x)
    case (Inl failure)
    obtain e trace where f: "failure = (e, trace)" by (cases failure)
    with Inl x have mr: "measure_run env args = Some (Inl (e, trace))" by simp
    from measure_run_Inl_trace [OF sl mr] have "trace = []" by simp
    with mr show ?thesis by (simp add: main_def exit_code_def)
  next
    case (Inr m)
    with x have mr: "measure_run env args = Some (Inr m)" by simp
    from measure_run_heartbeat [OF mr] sl
    have hb: "m_heartbeat_total m = 0" "m_heartbeat_success_rate m = 0" "m_soak_trace m = []"
      by auto
    have rep: "snd (report args m) = 1"
      "arg_min_success_rate args \<le> m_register_success_rate m \<Longrightarrow>
         fst (report args m) = [Stdout_summary (build_summary m),
                                Stderr_heartbeat_rate 0 (arg_min_success_rate args)]"
      using assms(3) hb(2) by (auto simp: report_def Let_def)
    from main_reports [OF mr] mr rep hb(1,2,3) show ?thesis
      by (simp add: exit_code_def)
  qed
qed

theorem no_wave_fails_heartbeat_rate_witness:
  "waves example_env = example_wave 0 0.2 # [example_wave 1.1 0.2]
   \<and> \<not> wave_due idle_args (t_start example_env) (example_wave 0 0.2)
   \<and> 0 < arg_min_success_rate idle_args
   \<and> measure_run example_env idle_args = Some (Inr idle_measurements)
   \<and> (\<exists>r. main example_env idle_args = Some r
         \<and> exit_code (run_ending r) = 1
         \<and> run_printed r = [Stdout_summary (build_summary idle_measurements),
                             Stderr_heartbeat_rate 0 0.98])"
proof -
  have w: "waves example_env = example_wave 0 0.2 # [example_wave 1.1 0.2]"
    by (simp add: example_env_def)
  have d: "\<not> wave_due idle_args (t_start example_env) (example_wave 0 0.2)"
    by (simp add: wave_due_def idle_args_def example_args_def example_env_def example_wave_def)
  have t: "0 < arg_min_success_rate idle_args" "arg_min_success_rate idle_args = 0.98"
    "arg_min_success_rate idle_args \<le> m_register_success_rate idle_measurements"
    by (simp_all add: idle_args_def example_args_def idle_measurements_def)
  from no_wave_fails_heartbeat_rate [OF w d t(1)] idle_run t(2,3)
  have "\<exists>r. main example_env idle_args = Some r
         \<and> exit_code (run_ending r) = 1
         \<and> run_printed r = [Stdout_summary (build_summary idle_measurements),
                             Stderr_heartbeat_rate 0 0.98]"
    by auto
  with w d t(1) idle_run show ?thesis by (intro conjI)
qed

lemma heartbeat_collect_trace: "soak_trace (heartbeat_collect rs st) = soak_trace st"
  by (induction rs arbitrary: st) auto

lemma heartbeat_collect_total:
  "heartbeat_total (heartbeat_collect rs st) = heartbeat_total st + int (length rs)"
  by (induction rs arbitrary: st) auto

lemma heartbeat_collect_latencies:
  "heartbeat_latencies (heartbeat_collect rs st)
     = heartbeat_latencies st @ map (\<lambda>(ok, latency_ms, status). latency_ms) rs"
  by (induction rs arbitrary: st) auto

lemma heartbeat_collect_success:
  "heartbeat_success (heartbeat_collect rs st)
     = heartbeat_success st + int (length (filter (\<lambda>(ok, latency_ms, status). ok) rs))"
  by (induction rs arbitrary: st) auto

lemma heartbeat_wave_trace:
  "soak_trace (heartbeat_wave w args relay_ids st) = soak_trace st @ [Wave relay_ids]"
  by (simp add: heartbeat_wave_def heartbeat_collect_trace)

text \<open>The futures of a wave are the calls of \<open>wave_calls\<close>, each with its success flag.\<close>

lemma heartbeat_futures:
  "map (\<lambda>relay_id. heartbeat_one (hb_net w) (hb_load w relay_id)
                        (arg_master_url args) relay_id (arg_timeout_seconds args)) relay_ids
     = map (\<lambda>(status, elapsed_ms, body). (200 \<le> status \<and> status < 300, elapsed_ms, status))
         (wave_calls args relay_ids w)"
  by (simp add: wave_calls_def heartbeat_one_def Let_def split: prod.splits)

lemma heartbeat_wave_results:
  assumes "mset (hb_order w) = mset [0 ..< length relay_ids]"
  shows "heartbeat_total (heartbeat_wave w args relay_ids st)
           = heartbeat_total st + int (length relay_ids)"
    and "mset (heartbeat_latencies (heartbeat_wave w args relay_ids st))
           = mset (heartbeat_latencies st)
             + mset (map (\<lambda>(status, elapsed_ms, body). elapsed_ms) (wave_calls args relay_ids w))"
    and "heartbeat_success (heartbeat_wave w args relay_ids st)
           = heartbeat_success st
             + int (length (filter (\<lambda>(status, elapsed_ms, body). 200 \<le> status \<and> status < 300)
                              (wave_calls args relay_ids w)))"
proof -
  let ?futs = "map (\<lambda>relay_id. heartbeat_one (hb_net w) (hb_load w relay_id)
                        (arg_master_url args) relay_id (arg_timeout_seconds args)) relay_ids"
  let ?flag = "\<lambda>(status :: int, elapsed_ms :: real, body :: string).
                 (200 \<le> status \<and> status < 300, elapsed_ms, status)"
  let ?st = "st\<lparr>soak_trace := soak_trace st @ [Wave relay_ids]\<rparr>"
  have w: "heartbeat_wave w args relay_ids st
      = heartbeat_collect (as_completed (hb_order w) ?futs) ?st"
    by (simp add: heartbeat_wave_def)
  from assms have perm: "mset (as_completed (hb_order w) ?futs) = mset ?futs"
    by (simp add: as_completed_mset)
  then have "length (as_completed (hb_order w) ?futs) = length ?futs"
    by (rule mset_eq_length)
  then show "heartbeat_total (heartbeat_wave w args relay_ids st)
           = heartbeat_total st + int (length relay_ids)"
    by (simp add: w heartbeat_collect_total)
  from perm have "mset (map (\<lambda>(ok, latency_ms, status). latency_ms) (as_completed (hb_order w) ?futs))
      = mset (map (\<lambda>(ok, latency_ms, status). latency_ms) ?futs)"
    by (simp only: mset_map)
  also have "map (\<lambda>(ok, latency_ms, status). latency_ms) ?futs
      = map (\<lambda>(status, elapsed_ms, body). elapsed_ms) (wave_calls args relay_ids w)"
    by (simp add: heartbeat_futures case_prod_beta)
  finally show "mset (heartbeat_latencies (heartbeat_wave w args relay_ids st))
           = mset (heartbeat_latencies st)
             + mset (map (\<lambda>(status, elapsed_ms, body). elapsed_ms) (wave_calls args relay_ids w))"
    by (simp add: w heartbeat_collect_latencies)
  from perm have "mset (filter (\<lambda>(ok, latency_ms, status). ok) (as_completed (hb_order w) ?futs))
      = mset (filter (\<lambda>(ok, latency_ms, status). ok) ?futs)"
    by (simp only: mset_filter)
  then have "length (filter (\<lambda>(ok, latency_ms, status). ok) (as_completed (hb_order w) ?futs))
      = length (filter (\<lambda>(ok, latency_ms, status). ok) ?futs)"
    by (rule mset_eq_length)
  also have "length (filter (\<lambda>(ok, latency_ms, status). ok) ?futs)
      = length (filter (\<lambda>(status, elapsed_ms, body). 200 \<le> status \<and> status < 300)
                  (wave_calls args relay_ids w))"
    by (simp add: heartbeat_futures filter_map comp_def case_prod_unfold)
  finally show "heartbeat_success (heartbeat_wave w args relay_ids st)
           = heartbeat_success st
             + int (length (filter (\<lambda>(status, elapsed_ms, body). 200 \<le> status \<and> status < 300)
                              (wave_calls args relay_ids w)))"
    by (simp add: w heartbeat_collect_success)
qed

lemma spec_schedule_Cons:
  "spec_schedule args relay_ids start (w # ws)
     = (if wave_due args start w
        then Wave relay_ids # Sleep (spec_sleep args w) # spec_schedule args relay_ids start ws
        else [])"
  by (simp add: spec_schedule_def)

lemma soak_loop_unrolled:
  "soak_loop args relay_ids start (w # ws) st
     = (if wave_due args start w
        then soak_loop args relay_ids start ws
               (let st1 = heartbeat_wave w args relay_ids st;
                    sleep_for = arg_interval_seconds args - (t_wave_end w - t_wave_start w)
                in if sleep_for > 0 then st1\<lparr>soak_trace := soak_trace st1 @ [Sleep sleep_for]\<rparr>
                   else st1)
        else Some st)"
  by (simp add: wave_due_def Let_def)

lemma soak_loop_running:
  "\<forall>w \<in> set ws. wave_due args start w \<Longrightarrow> soak_loop args relay_ids start ws st = None"
  by (induction ws arbitrary: st) (simp_all add: soak_loop_unrolled del: soak_loop.simps(2))

text \<open>
  C6: on a clock that eventually passes the soak duration the loop ends; it has started a
  wave at exactly the readings of the loop condition that were below the soak duration,
  up to the first that was not. Each wave has made the calls of \<open>wave_calls\<close>, one heartbeat
  POST naming each relay of the run: the latencies collected are those of these calls,
  the successes counted are those among them with a status in 200..299, and the total
  grows by the number of relays. The trace is the specification's schedule with the
  sleeps of length zero left out, so the loop never sleeps a negative time and an
  overrunning wave is followed by the next reading of the loop condition without a sleep.
\<close>

theorem soak_loop_schedule:
  assumes "\<exists>w \<in> set ws. \<not> wave_due args start w"
    and "\<forall>w \<in> set ws. mset (hb_order w) = mset [0 ..< length relay_ids]"
  shows "\<exists>st'. soak_loop args relay_ids start ws st = Some st'
     \<and> soak_trace st'
         = soak_trace st @ filter (\<lambda>e. e \<noteq> Sleep 0) (spec_schedule args relay_ids start ws)
     \<and> heartbeat_total st'
         = heartbeat_total st
           + int (length relay_ids) * int (length (takeWhile (wave_due args start) ws))
     \<and> mset (heartbeat_latencies st')
         = mset (heartbeat_latencies st)
           + (\<Sum>w\<leftarrow>takeWhile (wave_due args start) ws.
                mset (map (\<lambda>(status, elapsed_ms, body). elapsed_ms) (wave_calls args relay_ids w)))
     \<and> heartbeat_success st'
         = heartbeat_success st
           + (\<Sum>w\<leftarrow>takeWhile (wave_due args start) ws.
                int (length (filter (\<lambda>(status, elapsed_ms, body). 200 \<le> status \<and> status < 300)
                               (wave_calls args relay_ids w))))
     \<and> (\<forall>d. Sleep d \<in> set (soak_trace st') \<longrightarrow> Sleep d \<in> set (soak_trace st) \<or> 0 < d)"
  using assms
proof (induction ws arbitrary: st)
  case Nil
  then show ?case by simp
next
  case (Cons w ws)
  show ?case
  proof (cases "wave_due args start w")
    case False
    then show ?thesis
      by (simp add: soak_loop_unrolled spec_schedule_Cons del: soak_loop.simps(2))
  next
    case True
    let ?st1 = "heartbeat_wave w args relay_ids st"
    let ?x = "arg_interval_seconds args - (t_wave_end w - t_wave_start w)"
    let ?st2 = "if ?x > 0 then ?st1\<lparr>soak_trace := soak_trace ?st1 @ [Sleep ?x]\<rparr> else ?st1"
    let ?lat = "\<lambda>w. mset (map (\<lambda>(status :: int, elapsed_ms :: real, body :: string). elapsed_ms)
                          (wave_calls args relay_ids w))"
    let ?ok = "\<lambda>w. int (length (filter (\<lambda>(status :: int, elapsed_ms :: real, body :: string).
                                        200 \<le> status \<and> status < 300)
                               (wave_calls args relay_ids w)))"
    from True Cons.prems have ex: "\<exists>w \<in> set ws. \<not> wave_due args start w"
      and perm: "\<forall>w \<in> set ws. mset (hb_order w) = mset [0 ..< length relay_ids]"
      and pw: "mset (hb_order w) = mset [0 ..< length relay_ids]"
      by auto
    from Cons.IH [OF ex perm, of ?st2] obtain st' where
      run: "soak_loop args relay_ids start ws ?st2 = Some st'"
      and tr: "soak_trace st'
         = soak_trace ?st2 @ filter (\<lambda>e. e \<noteq> Sleep 0) (spec_schedule args relay_ids start ws)"
      and tot: "heartbeat_total st'
         = heartbeat_total ?st2
           + int (length relay_ids) * int (length (takeWhile (wave_due args start) ws))"
      and lat: "mset (heartbeat_latencies st')
         = mset (heartbeat_latencies ?st2) + (\<Sum>w\<leftarrow>takeWhile (wave_due args start) ws. ?lat w)"
      and suc: "heartbeat_success st'
         = heartbeat_success ?st2 + (\<Sum>w\<leftarrow>takeWhile (wave_due args start) ws. ?ok w)"
      and pos: "\<forall>d. Sleep d \<in> set (soak_trace st') \<longrightarrow> Sleep d \<in> set (soak_trace ?st2) \<or> 0 < d"
      by (elim exE conjE) (rule that; assumption)
    have t2: "soak_trace ?st2
        = soak_trace st @ filter (\<lambda>e. e \<noteq> Sleep 0) [Wave relay_ids, Sleep (spec_sleep args w)]"
      by (simp add: heartbeat_wave_trace spec_sleep_def max_def)
    have h2: "heartbeat_total ?st2 = heartbeat_total st + int (length relay_ids)"
      by (simp add: heartbeat_wave_results(1) [OF pw])
    have l2: "mset (heartbeat_latencies ?st2) = mset (heartbeat_latencies st) + ?lat w"
      by (simp add: heartbeat_wave_results(2) [OF pw])
    have k2: "heartbeat_success ?st2 = heartbeat_success st + ?ok w"
      by (simp add: heartbeat_wave_results(3) [OF pw])
    have s2: "\<forall>d. Sleep d \<in> set (soak_trace ?st2) \<longrightarrow> Sleep d \<in> set (soak_trace st) \<or> 0 < d"
      by (simp add: heartbeat_wave_trace)
    from True run have "soak_loop args relay_ids start (w # ws) st = Some st'"
      by (simp add: soak_loop_unrolled Let_def del: soak_loop.simps(2))
    moreover from True tr t2 have "soak_trace st'
         = soak_trace st @ filter (\<lambda>e. e \<noteq> Sleep 0) (spec_schedule args relay_ids start (w # ws))"
      by (simp add: spec_schedule_Cons)
    moreover from True tot h2 have "heartbeat_total st'
         = heartbeat_total st
           + int (length relay_ids) * int (length (takeWhile (wave_due args start) (w # ws)))"
      by (simp add: algebra_simps)
    moreover from True lat l2 have "mset (heartbeat_latencies st')
         = mset (heartbeat_latencies st)
           + (\<Sum>w\<leftarrow>takeWhile (wave_due args start) (w # ws). ?lat w)"
      by (simp add: ac_simps)
    moreover from True suc k2 have "heartbeat_success st'
         = heartbeat_success st + (\<Sum>w\<leftarrow>takeWhile (wave_due args start) (w # ws). ?ok w)"
      by simp
    moreover from pos s2 have
      "\<forall>d. Sleep d \<in> set (soak_trace st') \<longrightarrow> Sleep d \<in> set (soak_trace st) \<or> 0 < d"
      by blast
    ultimately show ?thesis by (intro exI [of _ st'] conjI)
  qed
qed

text \<open>The calls of the two waves of the example: both relays answer 200 in 5 ms.\<close>

lemma example_wave_calls:
  "wave_calls example_args example_ids short_wave = [(200, 5, ''{}''), (200, 5, ''{}'')]"
  "wave_calls example_args example_ids long_wave = [(200, 5, ''{}''), (200, 5, ''{}'')]"
  by (simp_all add: wave_calls_def example_ids_def short_wave_def long_wave_def example_wave_def
      post_json_def accept_all_def)

theorem soak_loop_schedule_witness:
  "\<not> wave_due example_args 0 late_reading
   \<and> late_reading \<in> set overrun_waves
   \<and> list_all (\<lambda>w. mset (hb_order w) = mset [0 ..< length example_ids]) overrun_waves
   \<and> (\<exists>st'. soak_loop example_args example_ids 0 overrun_waves
               \<lparr>heartbeat_total = 0, heartbeat_success = 0, heartbeat_latencies = [],
                soak_trace = []\<rparr> = Some st'
          \<and> soak_trace st' = [Wave example_ids, Sleep 0.8, Wave example_ids]
          \<and> heartbeat_total st' = 4
          \<and> mset (heartbeat_latencies st') = mset [5, 5, 5, 5]
          \<and> heartbeat_success st' = 4)"
proof -
  have d: "\<not> wave_due example_args 0 late_reading"
    "wave_due example_args 0 short_wave"
    "wave_due example_args 0 long_wave"
    by (simp_all add: wave_due_def example_args_def example_wave_def late_reading_def
        short_wave_def long_wave_def)
  have m: "late_reading \<in> set overrun_waves"
    by (simp add: overrun_waves_def)
  have p: "list_all (\<lambda>w. mset (hb_order w) = mset [0 ..< length example_ids]) overrun_waves"
    by (simp add: overrun_waves_def example_wave_def example_ids_def upt_rec late_reading_def
        short_wave_def long_wave_def)
  have sl: "spec_sleep example_args short_wave = 0.8" "spec_sleep example_args long_wave = 0"
    by (simp_all add: spec_sleep_def example_args_def example_wave_def short_wave_def
        long_wave_def)
  have s: "filter (\<lambda>e. e \<noteq> Sleep 0) (spec_schedule example_args example_ids 0 overrun_waves)
      = [Wave example_ids, Sleep 0.8, Wave example_ids]"
    by (simp add: overrun_waves_def spec_schedule_Cons d sl)
  have k: "takeWhile (wave_due example_args 0) overrun_waves = [short_wave, long_wave]"
    by (simp add: overrun_waves_def d)
  from d(1) m have ex: "\<exists>w \<in> set overrun_waves. \<not> wave_due example_args 0 w" by blast
  from p have all: "\<forall>w \<in> set overrun_waves. mset (hb_order w) = mset [0 ..< length example_ids]"
    by (simp add: list_all_iff)
  from soak_loop_schedule [OF ex all,
      of "\<lparr>heartbeat_total = 0, heartbeat_success = 0, heartbeat_latencies = [], soak_trace = []\<rparr>"]
  have "\<exists>st'. soak_loop example_args example_ids 0 overrun_waves
               \<lparr>heartbeat_total = 0, heartbeat_success = 0, heartbeat_latencies = [],
                soak_trace = []\<rparr> = Some st'
          \<and> soak_trace st' = [Wave example_ids, Sleep 0.8, Wave example_ids]
          \<and> heartbeat_total st' = 4
          \<and> mset (heartbeat_latencies st') = mset [5, 5, 5, 5]
          \<and> heartbeat_success st' = 4"
    unfolding s k by (auto simp: example_ids_def example_wave_calls [unfolded example_ids_def])
  with d(1) m p show ?thesis by (intro conjI)
qed

subsection \<open>Forwarding\<close>

lemma reader_read_None: "reader_read n r = None \<Longrightarrow> \<not> ends r"
  by (induction n r rule: reader_read.induct) (auto simp: ends_def split: if_splits)

lemma reader_read_error:
  "reader_read n r = Some (Inl e, r') \<Longrightarrow> incoming r = [] \<and> incoming r' = []"
  by (induction n r rule: reader_read.induct) (auto split: if_splits)

lemma reader_read_eof:
  "0 < n \<Longrightarrow> reader_read n r = Some (Inr [], r') \<Longrightarrow> incoming r = [] \<and> incoming r' = []"
  by (induction n r rule: reader_read.induct) (auto split: if_splits)

lemma reader_read_chunk:
  "reader_read n r = Some (Inr chunk, r') \<Longrightarrow> chunk \<noteq> []
   \<Longrightarrow> incoming r = chunk @ incoming r' \<and> length chunk \<le> n \<and> (ends r \<longrightarrow> ends r')"
  by (induction n r rule: reader_read.induct) (auto simp: ends_def split: if_splits)

lemma writer_drain_calls:
  "writer_drain w = (r, w') \<Longrightarrow>
     call_log w' = call_log w @ [Drain] \<and> close_raises w' = close_raises w
     \<and> wait_closed_raises w' = wait_closed_raises w
     \<and> (drains_ok w = None \<longrightarrow> r = None \<and> drains_ok w' = None)"
  by (auto simp: writer_drain_def split: option.splits nat.splits)

lemma writer_drain_budget:
  "writer_drain w = (r, w') \<Longrightarrow>
     (r \<noteq> None \<longrightarrow> drains_ok w = Some 0)
     \<and> (r = None \<longrightarrow> drains_ok w = None \<and> drains_ok w' = None
                      \<or> (\<exists>k. drains_ok w = Some (Suc k) \<and> drains_ok w' = Some k))"
  by (auto simp: writer_drain_def split: option.splits nat.splits)

lemma pipe_loop_error:
  "reader_read 65536 r = Some (Inl e, r') \<Longrightarrow> pipe_loop r w = Some (Some e, r', w)"
  by (subst pipe_loop.simps) simp

lemma pipe_loop_eof:
  "reader_read 65536 r = Some (Inr [], r') \<Longrightarrow> pipe_loop r w = Some (None, r', w)"
  by (subst pipe_loop.simps) simp

lemma pipe_loop_drain_fails:
  "reader_read 65536 r = Some (Inr c, r') \<Longrightarrow> c \<noteq> []
   \<Longrightarrow> writer_drain (writer_write w c) = (Some e, w')
   \<Longrightarrow> pipe_loop r w = Some (Some e, r', w')"
  by (subst pipe_loop.simps) simp

lemma pipe_loop_step:
  "reader_read 65536 r = Some (Inr c, r') \<Longrightarrow> c \<noteq> []
   \<Longrightarrow> writer_drain (writer_write w c) = (None, w')
   \<Longrightarrow> pipe_loop r w = pipe_loop r' w'"
  by (subst pipe_loop.simps) simp

lemma pipe_loop_ends:
  assumes "ends reader"
  shows "\<exists>raised reader' writer' chunks.
      pipe_loop reader writer = Some (raised, reader', writer')
    \<and> call_log writer' = call_log writer @ concat (map (\<lambda>c. [Write c, Drain]) chunks)
    \<and> (\<forall>c \<in> set chunks. c \<noteq> [] \<and> length c \<le> 65536)
    \<and> incoming reader = concat chunks @ incoming reader'
    \<and> stops_at (drains_ok writer) (length chunks) (incoming reader')
    \<and> close_raises writer' = close_raises writer
    \<and> wait_closed_raises writer' = wait_closed_raises writer"
  using assms
proof (induction reader writer rule: pipe_loop.induct)
  case (1 reader writer)
  show ?case
  proof (cases "reader_read 65536 reader")
    case None
    from reader_read_None [OF None] "1.prems" show ?thesis by simp
  next
    case (Some a)
    obtain res reader' where a: "a = (res, reader')" by (cases a)
    show ?thesis
    proof (cases res)
      case (Inl e)
      with Some a have rd: "reader_read 65536 reader = Some (Inl e, reader')" by simp
      then have "pipe_loop reader writer = Some (Some e, reader', writer)"
        by (rule pipe_loop_error)
      moreover from reader_read_error [OF rd]
      have "incoming reader = []" "incoming reader' = []" by simp_all
      ultimately show ?thesis
        by (intro exI [of _ "Some e"] exI [of _ reader'] exI [of _ writer] exI [of _ "[]"])
           (simp add: stops_at_def split: option.splits)
    next
      case (Inr chunk)
      with Some a have rd: "reader_read 65536 reader = Some (Inr chunk, reader')" by simp
      show ?thesis
      proof (cases "chunk = []")
        case True
        with rd have "pipe_loop reader writer = Some (None, reader', writer)"
          by (simp add: pipe_loop_eof)
        moreover from rd True have "incoming reader = []" "incoming reader' = []"
          using reader_read_eof [of 65536 reader reader'] by simp_all
        ultimately show ?thesis
          by (intro exI [of _ None] exI [of _ reader'] exI [of _ writer] exI [of _ "[]"])
             (simp add: stops_at_def split: option.splits)
      next
        case False
        from reader_read_chunk [OF rd False]
        have inc: "incoming reader = chunk @ incoming reader'"
          and len: "length chunk \<le> 65536" and e': "ends reader'"
          using "1.prems" by auto
        obtain r w2 where dr: "writer_drain (writer_write writer chunk) = (r, w2)"
          by (cases "writer_drain (writer_write writer chunk)")
        from writer_drain_calls [OF dr]
        have c2: "call_log w2 = call_log writer @ [Write chunk, Drain]"
          and k2: "close_raises w2 = close_raises writer"
            "wait_closed_raises w2 = wait_closed_raises writer"
          by (simp_all add: writer_write_def)
        from writer_drain_budget [OF dr]
        have b2: "r \<noteq> None \<longrightarrow> drains_ok writer = Some 0"
          "r = None \<longrightarrow> drains_ok writer = None \<and> drains_ok w2 = None
                      \<or> (\<exists>k. drains_ok writer = Some (Suc k) \<and> drains_ok w2 = Some k)"
          by (simp_all add: writer_write_def)
        show ?thesis
        proof (cases r)
          case (Some e)
          with rd False dr have "pipe_loop reader writer = Some (Some e, reader', w2)"
            by (simp add: pipe_loop_drain_fails)
          moreover from c2 have
            "call_log w2 = call_log writer @ concat (map (\<lambda>c. [Write c, Drain]) [chunk])"
            by simp
          moreover from False len have "\<forall>c \<in> set [chunk]. c \<noteq> [] \<and> length c \<le> 65536"
            by simp
          moreover from inc have "incoming reader = concat [chunk] @ incoming reader'"
            by simp
          moreover from Some b2(1) have
            "stops_at (drains_ok writer) (length [chunk]) (incoming reader')"
            by (simp add: stops_at_def)
          ultimately show ?thesis
            using k2
            by (intro exI [of _ "Some e"] exI [of _ reader'] exI [of _ w2] exI [of _ "[chunk]"]
                conjI)
        next
          case None
          with dr have dn: "writer_drain (writer_write writer chunk) = (None, w2)" by simp
          have step: "pipe_loop reader writer = pipe_loop reader' w2"
            using rd False dn by (rule pipe_loop_step)
          from "1.IH" [OF rd refl refl False dr [symmetric] None e']
          obtain raised reader'' writer'' chunks where
            run: "pipe_loop reader' w2 = Some (raised, reader'', writer'')"
            and cs: "call_log writer'' = call_log w2 @ concat (map (\<lambda>c. [Write c, Drain]) chunks)"
            and ok: "\<forall>c \<in> set chunks. c \<noteq> [] \<and> length c \<le> 65536"
            and rest: "incoming reader' = concat chunks @ incoming reader''"
            and stop: "stops_at (drains_ok w2) (length chunks) (incoming reader'')"
            and k: "close_raises writer'' = close_raises w2"
              "wait_closed_raises writer'' = wait_closed_raises w2"
            by (elim exE conjE) (rule that; assumption)
          from step run have "pipe_loop reader writer = Some (raised, reader'', writer'')"
            by simp
          moreover from cs c2 have
            "call_log writer'' = call_log writer @ concat (map (\<lambda>c. [Write c, Drain]) (chunk # chunks))"
            by simp
          moreover from ok False len have "\<forall>c \<in> set (chunk # chunks). c \<noteq> [] \<and> length c \<le> 65536"
            by simp
          moreover from rest inc have
            "incoming reader = concat (chunk # chunks) @ incoming reader''"
            by simp
          moreover from None b2(2) stop have
            "stops_at (drains_ok writer) (length (chunk # chunks)) (incoming reader'')"
            by (auto simp: stops_at_def)
          moreover from k k2 have "close_raises writer'' = close_raises writer"
            "wait_closed_raises writer'' = wait_closed_raises writer"
            by simp_all
          ultimately show ?thesis
            by (intro exI [of _ raised] exI [of _ reader''] exI [of _ writer'']
                exI [of _ "chunk # chunks"] conjI)
        qed
      qed
    qed
  qed
qed

lemma close_and_wait_calls:
  "close_and_wait w = (r, w') \<Longrightarrow>
     call_log w' = call_log w @ Close # (if close_raises w = None then [Wait_closed] else [])"
  by (auto simp: close_and_wait_def writer_close_def writer_wait_closed_def split: option.splits)

text \<open>
  C8: a forwarding task whose source reaches its end or an error returns without raising.
  It has written the source's bytes in their order, unmodified, in chunks of at most 65536
  bytes, each followed by a drain: all of them up to the end or error of the source when
  the writer's connection outlasts them, and otherwise all up to and including the chunk
  whose drain raises; what it has not written is still in its reader. Its last act is to
  close the writer, and what \<^verbatim>\<open>close\<close> or \<^verbatim>\<open>wait_closed\<close> raises does not leave the task.
\<close>

theorem pipe_forwards_and_closes:
  assumes "ends reader"
  shows "\<exists>reader' writer' chunks.
      pipe reader writer = Some (None, reader', writer')
    \<and> call_log writer'
        = call_log writer @ concat (map (\<lambda>c. [Write c, Drain]) chunks)
          @ Close # (if close_raises writer = None then [Wait_closed] else [])
    \<and> (\<forall>c \<in> set chunks. c \<noteq> [] \<and> length c \<le> 65536)
    \<and> incoming reader = concat chunks @ incoming reader'
    \<and> (case drains_ok writer of
          None \<Rightarrow> incoming reader' = []
        | Some d \<Rightarrow> (length chunks \<le> d \<and> incoming reader' = []) \<or> length chunks = d + 1)
    \<and> prefix (concat chunks) (incoming reader)
    \<and> (drains_ok writer = None \<longrightarrow> concat chunks = incoming reader)"
proof -
  from pipe_loop_ends [OF assms, of writer]
  obtain raised reader' w1 chunks where
    run: "pipe_loop reader writer = Some (raised, reader', w1)"
    and cs: "call_log w1 = call_log writer @ concat (map (\<lambda>c. [Write c, Drain]) chunks)"
    and ok: "\<forall>c \<in> set chunks. c \<noteq> [] \<and> length c \<le> 65536"
    and rest: "incoming reader = concat chunks @ incoming reader'"
    and stop: "stops_at (drains_ok writer) (length chunks) (incoming reader')"
    and k: "close_raises w1 = close_raises writer"
      "wait_closed_raises w1 = wait_closed_raises writer"
    by (elim exE conjE) (rule that; assumption)
  obtain r w2 where cw: "close_and_wait w1 = (r, w2)" by (cases "close_and_wait w1")
  from close_and_wait_calls [OF cw] cs k
  have c2: "call_log w2 = call_log writer @ concat (map (\<lambda>c. [Write c, Drain]) chunks)
          @ Close # (if close_raises writer = None then [Wait_closed] else [])"
    by simp
  from run cw have p: "pipe reader writer = Some (None, reader', w2)"
    by (simp add: pipe_def split: option.splits)
  from stop have st: "case drains_ok writer of
          None \<Rightarrow> incoming reader' = []
        | Some d \<Rightarrow> (length chunks \<le> d \<and> incoming reader' = []) \<or> length chunks = d + 1"
    by (simp add: stops_at_def)
  from rest have pre: "prefix (concat chunks) (incoming reader)"
    by simp
  from rest stop have all: "drains_ok writer = None \<longrightarrow> concat chunks = incoming reader"
    by (auto simp: stops_at_def)
  from p c2 ok rest st pre all show ?thesis
    by (intro exI [of _ reader'] exI [of _ w2] exI [of _ chunks] conjI)
qed

text \<open>
  A source of two segments that ends in a connection error, into a writer whose
  \<^verbatim>\<open>wait_closed\<close> raises; and the same source into a writer whose connection is lost at the
  second drain.
\<close>

theorem pipe_forwards_and_closes_witness:
  "ends [Data ''ping'', Data ''pong'', Reset]
   \<and> incoming [Data ''ping'', Data ''pong'', Reset] = ''pingpong''
   \<and> pipe [Data ''ping'', Data ''pong'', Reset] (fresh_writer\<lparr>wait_closed_raises := Some OSError\<rparr>)
      = Some (None, [Reset],
          \<lparr>call_log = [Write ''ping'', Drain, Write ''pong'', Drain, Close, Wait_closed],
           drains_ok = None, close_raises = None, wait_closed_raises = Some OSError\<rparr>)
   \<and> pipe [Data ''ping'', Data ''pong'', Data ''more'', Reset] (fresh_writer\<lparr>drains_ok := Some 1\<rparr>)
      = Some (None, [Data ''more'', Reset],
          \<lparr>call_log = [Write ''ping'', Drain, Write ''pong'', Drain, Close, Wait_closed],
           drains_ok = Some 0, close_raises = None, wait_closed_raises = None\<rparr>)"
proof -
  have e: "ends [Data ''ping'', Data ''pong'', Reset]" by (simp add: ends_def)
  have r: "pipe [Data ''ping'', Data ''pong'', Reset] (fresh_writer\<lparr>wait_closed_raises := Some OSError\<rparr>)
      = Some (None, [Reset],
          \<lparr>call_log = [Write ''ping'', Drain, Write ''pong'', Drain, Close, Wait_closed],
           drains_ok = None, close_raises = None, wait_closed_raises = Some OSError\<rparr>)"
    by (simp add: pipe_def pipe_loop.simps fresh_writer_def writer_write_def writer_drain_def
        close_and_wait_def writer_close_def writer_wait_closed_def)
  have l: "pipe [Data ''ping'', Data ''pong'', Data ''more'', Reset] (fresh_writer\<lparr>drains_ok := Some 1\<rparr>)
      = Some (None, [Data ''more'', Reset],
          \<lparr>call_log = [Write ''ping'', Drain, Write ''pong'', Drain, Close, Wait_closed],
           drains_ok = Some 0, close_raises = None, wait_closed_raises = None\<rparr>)"
    by (simp add: pipe_def pipe_loop.simps fresh_writer_def writer_write_def writer_drain_def
        close_and_wait_def writer_close_def writer_wait_closed_def)
  have i: "incoming [Data ''ping'', Data ''pong'', Reset] = ''pingpong''" by simp
  from pipe_forwards_and_closes [OF e, of "fresh_writer\<lparr>wait_closed_raises := Some OSError\<rparr>"] e i r l
  show ?thesis by (intro conjI)
qed

subsection \<open>Deterministic drop\<close>

lemma close_and_wait_cases:
  "\<exists>r w'. close_and_wait w = (r, w')
     \<and> call_log w' = call_log w @ Close # (if close_raises w = None then [Wait_closed] else [])"
  by (auto simp: close_and_wait_def writer_close_def writer_wait_closed_def split: option.splits)

text \<open>
  C3: the handler of the connection with sequence number \<open>s\<close> (the counter after its
  increment) under drop period \<open>N\<close>. When \<open>N > 0\<close> and \<open>s mod N = 0\<close> it only closes the
  client writer: no sleep, no dial, no forwarding task, no byte handed to the upstream.
  Otherwise (in particular when \<open>N = 0\<close> or \<open>s mod N \<noteq> 0\<close>) its events are the optional
  delay followed by the dial of the target. Which of the two happens is
  \<open>drop_decision s N\<close>, whatever the other arguments are.
\<close>

theorem handle_drop_rule:
  "let s = conn_count state + 1;
       N = drop_every args;
       (state', ses) = handle args state conn
   in conn_count state' = s
    \<and> (if drop_decision s N
        then ses_events ses = []
           \<and> ses_pipes ses = None
           \<and> forwarded_upstream ses = []
           \<and> call_log (ses_client_writer ses)
               = call_log (client_writer conn)
                 @ Close # (if close_raises (client_writer conn) = None then [Wait_closed] else [])
        else ses_events ses
               = (if delay_ms args > 0 then [Slept (of_int (delay_ms args) / 1000)] else [])
                 @ [Dialed (target_host args) (target_port args)])"
proof -
  obtain r w' where cw: "close_and_wait (client_writer conn) = (r, w')"
    and cl: "call_log w' = call_log (client_writer conn)
               @ Close # (if close_raises (client_writer conn) = None then [Wait_closed] else [])"
    using close_and_wait_cases [of "client_writer conn"] by (elim exE conjE) (rule that; assumption)
  show ?thesis
  proof (cases "drop_decision (conn_count state + 1) (drop_every args)")
    case True
    then show ?thesis
      using cw cl
      by (simp add: handle_def Let_def drop_decision_def forwarded_upstream_def)
  next
    case False
    then show ?thesis
      by (cases "upstream conn")
         (auto simp: handle_def Let_def drop_decision_def split: prod.splits)
  qed
qed

theorem handle_drop_rule_witness:
  "drop_decision 3 (drop_every drop3)
   \<and> fst (handle drop3 \<lparr>conn_count = 2\<rparr> echo_connection) = \<lparr>conn_count = 3\<rparr>
   \<and> ses_events (snd (handle drop3 \<lparr>conn_count = 2\<rparr> echo_connection)) = []
   \<and> ses_pipes (snd (handle drop3 \<lparr>conn_count = 2\<rparr> echo_connection)) = None
   \<and> call_log (ses_client_writer (snd (handle drop3 \<lparr>conn_count = 2\<rparr> echo_connection)))
       = [Close, Wait_closed]
   \<and> \<not> drop_decision 4 (drop_every drop3)
   \<and> ses_events (snd (handle drop3 \<lparr>conn_count = 3\<rparr> echo_connection))
       = [Dialed ''127.0.0.1'' 8000]
   \<and> forwarded_upstream (snd (handle drop3 \<lparr>conn_count = 3\<rparr> echo_connection)) = ''ping''"
proof -
  have d: "drop_decision 3 (drop_every drop3)" "\<not> drop_decision 4 (drop_every drop3)"
    by (simp_all add: drop_decision_def drop3_def)
  have f: "forwarded_upstream (snd (handle drop3 \<lparr>conn_count = 3\<rparr> echo_connection)) = ''ping''"
    by (simp add: handle_def drop3_def echo_connection_def forwarded_upstream_def pipe_def
        pipe_loop.simps fresh_writer_def writer_write_def writer_drain_def close_and_wait_def
        writer_close_def writer_wait_closed_def Let_def)
  from handle_drop_rule [of "\<lparr>conn_count = 2\<rparr>" drop3 echo_connection]
  have a: "fst (handle drop3 \<lparr>conn_count = 2\<rparr> echo_connection) = \<lparr>conn_count = 3\<rparr>
     \<and> ses_events (snd (handle drop3 \<lparr>conn_count = 2\<rparr> echo_connection)) = []
     \<and> ses_pipes (snd (handle drop3 \<lparr>conn_count = 2\<rparr> echo_connection)) = None
     \<and> call_log (ses_client_writer (snd (handle drop3 \<lparr>conn_count = 2\<rparr> echo_connection)))
         = [Close, Wait_closed]"
    using d(1)
    by (cases "handle drop3 \<lparr>conn_count = 2\<rparr> echo_connection")
       (auto simp: Let_def echo_connection_def fresh_writer_def)
  from handle_drop_rule [of "\<lparr>conn_count = 3\<rparr>" drop3 echo_connection]
  have b: "ses_events (snd (handle drop3 \<lparr>conn_count = 3\<rparr> echo_connection))
       = [Dialed ''127.0.0.1'' 8000]"
    using d(2)
    by (cases "handle drop3 \<lparr>conn_count = 3\<rparr> echo_connection")
       (auto simp: Let_def drop3_def)
  from d a b f show ?thesis by (intro conjI) simp_all
qed

lemma serve_drop_every_third:
  "map (\<lambda>ses. (ses_pipes ses = None, forwarded_upstream ses))
       (serve drop3 \<lparr>conn_count = 0\<rparr>
          [echo_connection, echo_connection, echo_connection,
           echo_connection, echo_connection, echo_connection,
           echo_connection, echo_connection, echo_connection])
     = [(False, ''ping''), (False, ''ping''), (True, []),
        (False, ''ping''), (False, ''ping''), (True, []),
        (False, ''ping''), (False, ''ping''), (True, [])]"
  by (simp add: handle_def drop3_def echo_connection_def forwarded_upstream_def pipe_def
      pipe_loop.simps fresh_writer_def writer_write_def writer_drain_def close_and_wait_def
      writer_close_def writer_wait_closed_def Let_def)

end
